theory Spec2Isabelle
  imports Complex_Main
begin

section \<open>Data model (types.ts)\<close>

text \<open>
  A JavaScript \<open>number\<close> is modelled as a \<open>real\<close>: finite values with exact arithmetic.
  The record fields carry a prefix where the source name (\<open>id\<close>, \<open>x\<close>, \<open>y\<close>, \<open>w\<close>, \<open>h\<close>)
  would clash with a HOL constant or with the variables of the theorems.
\<close>

record BBox =
  ann_id :: string
  labelId :: string
  box_x :: real
  box_y :: real
  box_w :: real
  box_h :: real

record LabelClass =
  label_id :: string
  label_name :: string
  color :: string

datatype ImageStatus = unlabeled | in_progress | done_status

text \<open>The \<open>file\<close> and \<open>url\<close> fields of \<open>DatasetImage\<close> are opaque browser handles; no
  function below reads them.\<close>

record DatasetImage =
  image_id :: string
  image_name :: string
  width :: real
  height :: real
  annotations :: "BBox list"
  status :: ImageStatus

section \<open>Coordinate transform (yoloService.ts)\<close>

text \<open>The SVG rectangle returned by \<open>yoloToSvg\<close>: top-left corner and size, in pixels.\<close>

record Rect =
  rect_x :: real
  rect_y :: real
  rect_w :: real
  rect_h :: real

text \<open>The value returned by \<open>svgToYolo\<close>: \<open>Omit<BBox, 'id' | 'labelId'>\<close>.\<close>

record YoloBox =
  yolo_x :: real
  yolo_y :: real
  yolo_w :: real
  yolo_h :: real

definition yoloToSvg :: "BBox \<Rightarrow> real \<Rightarrow> real \<Rightarrow> Rect" where
  "yoloToSvg bbox imgWidth imgHeight =
     (let w = box_w bbox * imgWidth;
          h = box_h bbox * imgHeight;
          x = (box_x bbox * imgWidth) - (w / 2);
          y = (box_y bbox * imgHeight) - (h / 2)
      in \<lparr>rect_x = x, rect_y = y, rect_w = w, rect_h = h\<rparr>)"

text \<open>
  \<open>svgToYolo\<close> divides by the image size without a check. For \<open>imgWidth = 0\<close> or
  \<open>imgHeight = 0\<close> the source yields \<open>Infinity\<close> or \<open>NaN\<close>, which a \<open>real\<close> cannot
  hold; every statement below about \<open>svgToYolo\<close> therefore assumes a non-zero size.
\<close>

definition svgToYolo :: "real \<Rightarrow> real \<Rightarrow> real \<Rightarrow> real \<Rightarrow> real \<Rightarrow> real \<Rightarrow> YoloBox" where
  "svgToYolo x y w h imgWidth imgHeight =
     (let cx = (x + w / 2) / imgWidth;
          cy = (y + h / 2) / imgHeight;
          nw = w / imgWidth;
          nh = h / imgHeight
      in \<lparr>yolo_x = cx, yolo_y = cy, yolo_w = nw, yolo_h = nh\<rparr>)"

section \<open>Detection ingestion (geminiService part of yoloService.ts)\<close>

subsection \<open>Configuration\<close>

text \<open>\<open>AutoLabelConfig\<close>: every property is optional; \<open>None\<close> is an absent property.\<close>

record AutoLabelConfig =
  model :: "string option"
  minConfidence :: "real option"
  maxRetries :: "int option"
  temperature :: "real option"
  includeDescription :: "bool option"

text \<open>The configuration after the destructuring with defaults at the head of
  \<open>autoLabelImage\<close>.\<close>

record ResolvedConfig =
  r_model :: string
  r_minConfidence :: real
  r_maxRetries :: int
  r_temperature :: real
  r_includeDescription :: bool

definition orDefault :: "'a option \<Rightarrow> 'a \<Rightarrow> 'a" where
  "orDefault v d = (case v of None \<Rightarrow> d | Some a \<Rightarrow> a)"

definition resolveConfig :: "AutoLabelConfig \<Rightarrow> ResolvedConfig" where
  "resolveConfig config =
     \<lparr>r_model = orDefault (model config) ''gemini-3-flash-preview'',
      r_minConfidence = orDefault (minConfidence config) (93 / 100),
      r_maxRetries = orDefault (maxRetries config) 3,
      r_temperature = orDefault (temperature config) 0,
      r_includeDescription = orDefault (includeDescription config) False\<rparr>"

text \<open>The default argument \<open>config = {}\<close> of \<open>autoLabelImage\<close>.\<close>

definition emptyConfig :: AutoLabelConfig where
  "emptyConfig =
     \<lparr>model = None, minConfidence = None, maxRetries = None, temperature = None,
      includeDescription = None\<rparr>"

subsection \<open>Per-detection steps\<close>

text \<open>
  Between \<open>res.box_2d.map(Number)\<close> and \<open>validateBBox\<close> the working array may hold
  \<open>NaN\<close>: a read beyond the end of the array is \<open>undefined\<close>, and dividing it gives
  \<open>NaN\<close>. Comparisons with \<open>NaN\<close> are false.
\<close>

datatype jsnum = Num real | NaN

fun js_gt :: "jsnum \<Rightarrow> jsnum \<Rightarrow> bool" where
  "js_gt (Num a) (Num b) = (a > b)"
| "js_gt _ _ = False"

fun js_div :: "jsnum \<Rightarrow> real \<Rightarrow> jsnum" where
  "js_div (Num a) d = Num (a / d)"
| "js_div NaN d = NaN"

definition js_nth :: "jsnum list \<Rightarrow> nat \<Rightarrow> jsnum" where
  "js_nth box i = (if i < length box then box ! i else NaN)"

record GeminiDetectionResult =
  label :: string
  box_2d :: "real list"
  confidence :: "real option"
  description :: "string option"

record BBoxWithConfidence = BBox +
  bbox_confidence :: "real option"
  bbox_description :: "string option"

datatype skipped = FilteredByConfidence | InvalidBox

text \<open>Step 3: \<open>Number(res.confidence ?? 1.0)\<close> and the threshold test.\<close>

definition confidenceOf :: "GeminiDetectionResult \<Rightarrow> real" where
  "confidenceOf res = (case confidence res of None \<Rightarrow> 1 | Some c \<Rightarrow> c)"

definition belowThreshold :: "GeminiDetectionResult \<Rightarrow> real \<Rightarrow> bool" where
  "belowThreshold res minConf = (confidenceOf res < minConf)"

text \<open>Step 4: pixel coordinates are recognised by any entry above \<open>1.0\<close>; \<open>None\<close> is the
  branch that skips the detection.\<close>

definition normalizeCoordinates :: "jsnum list \<Rightarrow> real \<Rightarrow> real \<Rightarrow> jsnum list option" where
  "normalizeCoordinates box imgWidth imgHeight =
     (if list_ex (\<lambda>v. js_gt v (Num 1)) box then
        (if imgWidth > 0 \<and> imgHeight > 0 then
           Some [js_div (js_nth box 0) imgHeight, js_div (js_nth box 1) imgWidth,
                 js_div (js_nth box 2) imgHeight, js_div (js_nth box 3) imgWidth]
         else None)
      else Some box)"

text \<open>Step 5: swap inverted coordinates. A swap happens only when both entries compare,
  so both indices are inside the array.\<close>

definition swapInverted :: "jsnum list \<Rightarrow> jsnum list" where
  "swapInverted box =
     (let b1 = (if js_gt (js_nth box 0) (js_nth box 2)
                then box[0 := js_nth box 2, 2 := js_nth box 0] else box);
          b2 = (if js_gt (js_nth b1 1) (js_nth b1 3)
                then b1[1 := js_nth b1 3, 3 := js_nth b1 1] else b1)
      in b2)"

definition validateBBox :: "jsnum list \<Rightarrow> bool" where
  "validateBBox box = (length box = 4 \<and> list_all (\<lambda>v. v \<noteq> NaN) box)"

text \<open>The numbers of a box; a validated box holds no \<open>NaN\<close>.\<close>

fun numbers :: "jsnum list \<Rightarrow> real list" where
  "numbers [] = []"
| "numbers (Num a # vs) = a # numbers vs"
| "numbers (NaN # vs) = numbers vs"

text \<open>Step 6: \<open>clampBBox\<close>. It is called on validated boxes only, which have four numeric
  entries; for a shorter array the destructuring yields \<open>undefined\<close> entries, which the
  model reports as \<open>None\<close>.\<close>

definition MIN_SIZE :: real where
  "MIN_SIZE = 1 / 100"

definition ensureMinimum :: "real \<Rightarrow> real \<Rightarrow> real \<times> real" where
  "ensureMinimum lo hi =
     (if hi - lo < MIN_SIZE then
        (let center = (lo + hi) / 2
         in (max 0 (center - MIN_SIZE / 2), min 1 (center + MIN_SIZE / 2)))
      else (lo, hi))"

definition clampBBox :: "real list \<Rightarrow> real list option" where
  "clampBBox box =
     (case map (\<lambda>v. max 0 (min 1 v)) box of
        ymin # xmin # ymax # xmax # rest \<Rightarrow>
          (let (ymin', ymax') = ensureMinimum ymin ymax;
               (xmin', xmax') = ensureMinimum xmin xmax
           in Some [ymin', xmin', ymax', xmax'])
      | _ \<Rightarrow> None)"

text \<open>Step 7: conversion of \<open>[ymin, xmin, ymax, xmax]\<close> to centre form, with the final
  guard on the size.\<close>

definition toYoloGeometry :: "real \<Rightarrow> real \<Rightarrow> real \<Rightarrow> real \<Rightarrow> skipped + YoloBox" where
  "toYoloGeometry ymin xmin ymax xmax =
     (let w = xmax - xmin;
          h = ymax - ymin;
          cx = xmin + w / 2;
          cy = ymin + h / 2
      in if w \<le> 0 \<or> h \<le> 0 then Inl InvalidBox
         else Inr \<lparr>yolo_x = cx, yolo_y = cy, yolo_w = w, yolo_h = h\<rparr>)"

text \<open>Steps 3 to 8 of the \<open>forEach\<close> body, for a detection whose label has been resolved
  to \<open>labelObj\<close>; \<open>newId\<close> stands for the value of \<open>crypto.randomUUID()\<close>.\<close>

definition processDetection ::
  "DatasetImage \<Rightarrow> real \<Rightarrow> LabelClass \<Rightarrow> string \<Rightarrow> GeminiDetectionResult
     \<Rightarrow> skipped + BBoxWithConfidence" where
  "processDetection img minConf labelObj newId res =
     (if belowThreshold res minConf then Inl FilteredByConfidence
      else
        (case normalizeCoordinates (map Num (box_2d res)) (width img) (height img) of
           None \<Rightarrow> Inl InvalidBox
         | Some box \<Rightarrow>
             (let box' = swapInverted box
              in if \<not> validateBBox box' then Inl InvalidBox
                 else
                   (case clampBBox (numbers box') of
                      Some [ymin, xmin, ymax, xmax] \<Rightarrow>
                        (case toYoloGeometry ymin xmin ymax xmax of
                           Inl s \<Rightarrow> Inl s
                         | Inr g \<Rightarrow>
                             Inr \<lparr>ann_id = newId, labelId = label_id labelObj,
                                  box_x = yolo_x g, box_y = yolo_y g,
                                  box_w = yolo_w g, box_h = yolo_h g,
                                  bbox_confidence = Some (confidenceOf res),
                                  bbox_description = description res\<rparr>)
                    | _ \<Rightarrow> Inl InvalidBox))))"

subsection \<open>Retry wrapper\<close>

text \<open>
  \<open>retryAsync\<close> calls \<open>fn\<close> in a loop. The asynchronous function is modelled by the
  outcome of each of its invocations: \<open>fn k\<close> is what the \<open>k\<close>-th call (from 0) does,
  \<open>Inl\<close> a thrown error and \<open>Inr\<close> a returned value. The loop threads the number of
  calls made so far and the list of delays awaited so far. The result \<open>Inl lastError\<close> is
  the final \<open>throw lastError\<close>; \<open>lastError\<close> is \<open>None\<close> (\<open>undefined\<close>) when no call
  was made.
\<close>

function retryLoop ::
  "(nat \<Rightarrow> 'e + 'a) \<Rightarrow> int \<Rightarrow> int \<Rightarrow> int \<Rightarrow> 'e option \<Rightarrow> nat \<Rightarrow> int list
     \<Rightarrow> ('e option + 'a) \<times> nat \<times> int list" where
  "retryLoop fn maxRetr attempt retryDelay lastError calls sleeps =
     (if attempt \<le> maxRetr then
        (case fn calls of
           Inr v \<Rightarrow> (Inr v, Suc calls, sleeps)
         | Inl err \<Rightarrow>
             (if attempt < maxRetr then
                retryLoop fn maxRetr (attempt + 1) (retryDelay * 2) (Some err) (Suc calls)
                  (sleeps @ [retryDelay])
              else
                retryLoop fn maxRetr (attempt + 1) retryDelay (Some err) (Suc calls) sleeps))
      else (Inl lastError, calls, sleeps))"
  by pat_completeness auto
termination
  by (relation "measure (\<lambda>(fn, maxRetr, attempt, rest). nat (maxRetr + 1 - attempt))") auto

declare retryLoop.simps [simp del]

text \<open>\<open>retryDelay\<close> has the default \<open>1000\<close>; \<open>autoLabelImage\<close> passes no third argument.\<close>

definition retryAsync ::
  "(nat \<Rightarrow> 'e + 'a) \<Rightarrow> int \<Rightarrow> int option \<Rightarrow> ('e option + 'a) \<times> nat \<times> int list" where
  "retryAsync fn maxRetr retryDelay = retryLoop fn maxRetr 0 (orDefault retryDelay 1000) None 0 []"

text \<open>A call that throws every time; the error names the call.\<close>

definition alwaysFails :: "nat \<Rightarrow> nat + unit" where
  "alwaysFails k = Inl k"

section \<open>Canvas gestures (the Canvas component)\<close>

datatype ToolMode = SELECT | DRAW | PAN

datatype ResizeHandleType = handle_tl | handle_tr | handle_bl | handle_br

text \<open>The props and the component state that \<open>handleMouseMove\<close> reads.\<close>

record CanvasState =
  cs_image :: DatasetImage
  cs_mode :: ToolMode
  cs_zoom :: real
  cs_pan :: "real \<times> real"
  selectedAnnotationId :: "string option"
  isDragging :: bool
  dragStart :: "(real \<times> real) option"
  activeCreation :: "Rect option"
  draggingAnnotationId :: "string option"
  resizeHandle :: "ResizeHandleType option"

text \<open>The event: the pointer position, and the left and top of the bounding rectangle of
  the container (\<open>None\<close> when \<open>containerRef.current\<close> is null).\<close>

record MouseEvent =
  clientX :: real
  clientY :: real
  containerRect :: "(real \<times> real) option"

text \<open>What a handler does: the callbacks and state setters it calls, in order.\<close>

datatype effect =
    OnPanChange real real
  | SetDragStart "real \<times> real"
  | SetActiveCreation Rect
  | OnUpdateAnnotations "BBox list"

text \<open>A string or null in a condition: null and the empty string are falsy.\<close>

definition truthy :: "string option \<Rightarrow> bool" where
  "truthy s = (case s of None \<Rightarrow> False | Some v \<Rightarrow> v \<noteq> [])"

definition getMousePos :: "CanvasState \<Rightarrow> MouseEvent \<Rightarrow> real \<times> real" where
  "getMousePos st e =
     (case containerRect e of
        None \<Rightarrow> (0, 0)
      | Some (rleft, rtop) \<Rightarrow>
          ((clientX e - rleft - fst (cs_pan st)) / cs_zoom st,
           (clientY e - rtop - snd (cs_pan st)) / cs_zoom st))"

text \<open>The rectangle recomputed in the resize branch of \<open>handleMouseMove\<close> from the
  rectangle \<open>rect\<close> of the annotation and the pointer position \<open>(x, y)\<close>. Here and in
  \<open>handleMouseMove\<close> the arithmetic is exact; \<open>resizeRect_double\<close> and
  \<open>handleMouseMove_double\<close> below round every operation as the source does.\<close>

definition resizeRect :: "ResizeHandleType \<Rightarrow> Rect \<Rightarrow> real \<Rightarrow> real \<Rightarrow> Rect" where
  "resizeRect hdl rect x y =
     (case hdl of
        handle_tl \<Rightarrow>
          (let brX = rect_x rect + rect_w rect;
               brY = rect_y rect + rect_h rect;
               newX = min x (brX - 5);
               newY = min y (brY - 5);
               newW = brX - newX;
               newH = brY - newY
           in \<lparr>rect_x = newX, rect_y = newY, rect_w = newW, rect_h = newH\<rparr>)
      | handle_tr \<Rightarrow>
          (let blX = rect_x rect;
               blY = rect_y rect + rect_h rect;
               newY = min y (blY - 5);
               newW = max (x - blX) 5;
               newH = blY - newY
           in \<lparr>rect_x = rect_x rect, rect_y = newY, rect_w = newW, rect_h = newH\<rparr>)
      | handle_bl \<Rightarrow>
          (let trX = rect_x rect + rect_w rect;
               trY = rect_y rect;
               newX = min x (trX - 5);
               newW = trX - newX;
               newH = max (y - trY) 5
           in \<lparr>rect_x = newX, rect_y = rect_y rect, rect_w = newW, rect_h = newH\<rparr>)
      | handle_br \<Rightarrow>
          (let tlX = rect_x rect;
               tlY = rect_y rect;
               newW = max (x - tlX) 5;
               newH = max (y - tlY) 5
           in \<lparr>rect_x = rect_x rect, rect_y = rect_y rect, rect_w = newW, rect_h = newH\<rparr>))"

text \<open>The object spread \<open>{ ...a, ...newYolo }\<close>.\<close>

definition withGeometry :: "BBox \<Rightarrow> YoloBox \<Rightarrow> BBox" where
  "withGeometry a g =
     a\<lparr>box_x := yolo_x g, box_y := yolo_y g, box_w := yolo_w g, box_h := yolo_h g\<rparr>"

definition handleMouseMove :: "CanvasState \<Rightarrow> MouseEvent \<Rightarrow> effect list" where
  "handleMouseMove st e =
     (let img = cs_image st in
      if cs_mode st = PAN \<and> isDragging st \<and> dragStart st \<noteq> None then
        (case dragStart st of
           Some (sx, sy) \<Rightarrow>
             (let dx = clientX e - sx; dy = clientY e - sy
              in [OnPanChange (fst (cs_pan st) + dx) (snd (cs_pan st) + dy),
                  SetDragStart (clientX e, clientY e)])
         | None \<Rightarrow> [])
      else
        (let (x, y) = getMousePos st e in
         if cs_mode st = DRAW \<and> isDragging st \<and> dragStart st \<noteq> None then
           (case dragStart st of
              Some (sx, sy) \<Rightarrow>
                (let w = x - sx; h = y - sy
                 in [SetActiveCreation
                       \<lparr>rect_x = (if w > 0 then sx else x), rect_y = (if h > 0 then sy else y),
                        rect_w = \<bar>w\<bar>, rect_h = \<bar>h\<bar>\<rparr>])
            | None \<Rightarrow> [])
         else if cs_mode st = SELECT \<and> resizeHandle st \<noteq> None
                 \<and> truthy (selectedAnnotationId st) then
           (case (resizeHandle st,
                  find (\<lambda>a. Some (ann_id a) = selectedAnnotationId st) (annotations img)) of
              (Some hdl, Some ann) \<Rightarrow>
                (let rect = yoloToSvg ann (width img) (height img);
                     r = resizeRect hdl rect x y;
                     newYolo = svgToYolo (rect_x r) (rect_y r) (rect_w r) (rect_h r)
                                 (width img) (height img);
                     updatedAnns = map (\<lambda>a. if ann_id a = ann_id ann then withGeometry a newYolo
                                              else a) (annotations img)
                 in [OnUpdateAnnotations updatedAnns])
            | _ \<Rightarrow> [])
         else if cs_mode st = SELECT \<and> isDragging st \<and> truthy (draggingAnnotationId st) then
           (case (find (\<lambda>a. Some (ann_id a) = draggingAnnotationId st) (annotations img),
                  dragStart st) of
              (Some ann, Some (sx, sy)) \<Rightarrow>
                (let dx = (x - sx) / width img;
                     dy = (y - sy) / height img;
                     newAnns = map (\<lambda>a. if Some (ann_id a) = draggingAnnotationId st
                                          then a\<lparr>box_x := box_x a + dx, box_y := box_y a + dy\<rparr>
                                          else a) (annotations img)
                 in [OnUpdateAnnotations newAnns, SetDragStart (x, y)])
            | _ \<Rightarrow> [])
         else []))"

text \<open>The corner of a rectangle opposite a handle: bottom-right for the top-left handle,
  bottom-left for top-right, top-right for bottom-left, top-left for bottom-right.\<close>

definition oppositeCorner :: "ResizeHandleType \<Rightarrow> Rect \<Rightarrow> real \<times> real" where
  "oppositeCorner hdl r =
     (case hdl of
        handle_tl \<Rightarrow> (rect_x r + rect_w r, rect_y r + rect_h r)
      | handle_tr \<Rightarrow> (rect_x r, rect_y r + rect_h r)
      | handle_bl \<Rightarrow> (rect_x r + rect_w r, rect_y r)
      | handle_br \<Rightarrow> (rect_x r, rect_y r))"

section \<open>Label merge\<close>

record Dataset =
  images :: "DatasetImage list"
  labels :: "LabelClass list"

datatype MergeError = MergeRejected

text \<open>
  Modelled from the spec: the merge operation itself, the \<open>onMerge\<close> callback that
  \<open>MergeModal\<close> receives, is not among the sources. The specification gives it: every
  annotation of every image whose \<open>labelId\<close> is \<open>sourceId\<close> is rewritten to \<open>targetId\<close>,
  the label with \<open>sourceId\<close> is removed from the label list, and merging a label into
  itself or a nonexistent id is rejected before any mutation.
\<close>

definition hasLabel :: "string \<Rightarrow> LabelClass list \<Rightarrow> bool" where
  "hasLabel lid ls = list_ex (\<lambda>l. label_id l = lid) ls"

definition relabel :: "string \<Rightarrow> string \<Rightarrow> BBox \<Rightarrow> BBox" where
  "relabel sourceId targetId a = (if labelId a = sourceId then a\<lparr>labelId := targetId\<rparr> else a)"

definition merge :: "string \<Rightarrow> string \<Rightarrow> Dataset \<Rightarrow> MergeError + Dataset" where
  "merge sourceId targetId ds =
     (if sourceId = targetId \<or> \<not> hasLabel sourceId (labels ds) \<or> \<not> hasLabel targetId (labels ds)
      then Inl MergeRejected
      else Inr \<lparr>images = map (\<lambda>img. img\<lparr>annotations :=
                                    map (relabel sourceId targetId) (annotations img)\<rparr>)
                           (images ds),
                labels = filter (\<lambda>l. label_id l \<noteq> sourceId) (labels ds)\<rparr>)"

text \<open>\<open>handleConfirm\<close> of \<open>MergeModal\<close>: the callback runs only for two non-empty, distinct
  ids; \<open>None\<close> is the call that does not happen.\<close>

definition handleConfirm :: "string \<Rightarrow> string \<Rightarrow> (string \<Rightarrow> string \<Rightarrow> 'r) \<Rightarrow> 'r option" where
  "handleConfirm sourceId targetId onMerge =
     (if sourceId \<noteq> [] \<and> targetId \<noteq> [] \<and> sourceId \<noteq> targetId
      then Some (onMerge sourceId targetId) else None)"

text \<open>The per-label count of the class list in \<open>App\<close>, and the total number of
  annotations.\<close>

definition countLabel :: "string \<Rightarrow> DatasetImage list \<Rightarrow> nat" where
  "countLabel lid imgs =
     foldl (\<lambda>acc img. acc + length (filter (\<lambda>a. labelId a = lid) (annotations img))) 0 imgs"

definition totalAnnotations :: "DatasetImage list \<Rightarrow> nat" where
  "totalAnnotations imgs = foldl (\<lambda>acc img. acc + length (annotations img)) 0 imgs"

section \<open>Export (yoloService.ts)\<close>

text \<open>\<open>Array.prototype.join\<close>.\<close>

fun join :: "string \<Rightarrow> string list \<Rightarrow> string" where
  "join sep [] = []"
| "join sep [l] = l"
| "join sep (l # m # ls) = l @ sep @ join sep (m # ls)"

text \<open>\<open>Array.prototype.findIndex\<close>: the first position that satisfies the predicate, or
  \<open>-1\<close>.\<close>

fun findIndex :: "('a \<Rightarrow> bool) \<Rightarrow> 'a list \<Rightarrow> int" where
  "findIndex P [] = -1"
| "findIndex P (l # ls) =
     (if P l then 0 else (let r = findIndex P ls in if r = -1 then -1 else r + 1))"

text \<open>The decimal digits of a non-negative integer, as a template literal prints it.\<close>

definition digitChar :: "nat \<Rightarrow> char" where
  "digitChar d = ''0123456789'' ! (d mod 10)"

function natToString :: "nat \<Rightarrow> string" where
  "natToString n = (if n < 10 then [digitChar n] else natToString (n div 10) @ [digitChar n])"
  by pat_completeness auto
termination
  by (relation "measure id") auto

declare natToString.simps [simp del]

definition intToString :: "int \<Rightarrow> string" where
  "intToString i = (if i < 0 then ''-'' @ natToString (nat (- i)) else natToString (nat i))"

text \<open>
  \<open>Number.prototype.toFixed\<close> with 6 fraction digits (ECMAScript): a negative value
  prints a minus sign and its magnitude; a magnitude of \<open>10^21\<close> or more is printed by
  \<open>Number::toString\<close> (exponent notation), which is taken as the parameter
  \<open>numberToString\<close>; otherwise \<open>n\<close> is the integer nearest to \<open>x * 10^6\<close> (the larger of
  two), its digits are padded with zeros on the left to 7 and the point goes before the last 6.
\<close>

definition toFixed6 :: "(real \<Rightarrow> string) \<Rightarrow> real \<Rightarrow> string" where
  "toFixed6 numberToString v =
     (let s = (if v < 0 then ''-'' else '''');
          x = \<bar>v\<bar>
      in if x \<ge> 10 ^ 21 then s @ numberToString x
         else
           (let n = nat \<lfloor>x * 10 ^ 6 + 1 / 2\<rfloor>;
                m = natToString n;
                m' = (if length m \<le> 6 then replicate (7 - length m) (CHR ''0'') @ m else m);
                k = length m'
            in s @ take (k - 6) m' @ ''.'' @ drop (k - 6) m'))"

text \<open>The callback of \<open>annotations.map\<close> in \<open>generateYoloAnnotation\<close>.\<close>

definition annotationLine :: "(real \<Rightarrow> string) \<Rightarrow> LabelClass list \<Rightarrow> BBox \<Rightarrow> string" where
  "annotationLine numberToString ls ann =
     (let classIndex = findIndex (\<lambda>l. label_id l = labelId ann) ls
      in if classIndex = -1 then ''''
         else intToString classIndex @ '' '' @ toFixed6 numberToString (box_x ann)
              @ '' '' @ toFixed6 numberToString (box_y ann)
              @ '' '' @ toFixed6 numberToString (box_w ann)
              @ '' '' @ toFixed6 numberToString (box_h ann))"

definition generateYoloAnnotation ::
  "(real \<Rightarrow> string) \<Rightarrow> BBox list \<Rightarrow> LabelClass list \<Rightarrow> string" where
  "generateYoloAnnotation numberToString anns ls =
     join [CHR 0x0A] (map (annotationLine numberToString ls) anns)"

text \<open>Reading the exported text back: the lines between newline characters
  (\<open>String.prototype.split\<close>), and the shape of a number with exactly 6 decimal places:
  an optional minus sign, one or more digits, a point, six digits.\<close>

fun splitOn :: "char \<Rightarrow> string \<Rightarrow> string list" where
  "splitOn c [] = [[]]"
| "splitOn c (d # ds) =
     (if d = c then [] # splitOn c ds
      else (case splitOn c ds of l # ls \<Rightarrow> (d # l) # ls | [] \<Rightarrow> [[d]]))"

definition isDigit :: "char \<Rightarrow> bool" where
  "isDigit c = (c \<in> set ''0123456789'')"

definition isFixed6 :: "string \<Rightarrow> bool" where
  "isFixed6 s =
     (let t = (case s of c # cs \<Rightarrow> (if c = CHR ''-'' then cs else s) | [] \<Rightarrow> s);
          k = length t
      in k \<ge> 8 \<and> t ! (k - 7) = CHR ''.''
         \<and> list_all isDigit (take (k - 7) t) \<and> list_all isDigit (drop (k - 6) t))"

text \<open>The number that a string of that shape denotes: its digits read as an integer,
  divided by \<open>10^6\<close>, negated after a minus sign.\<close>

definition digitValue :: "char \<Rightarrow> nat" where
  "digitValue c = of_char c - 48"

definition natOfString :: "string \<Rightarrow> nat" where
  "natOfString s = foldl (\<lambda>acc c. 10 * acc + digitValue c) 0 s"

definition fixed6Value :: "string \<Rightarrow> real" where
  "fixed6Value s =
     (case s of
        c # cs \<Rightarrow>
          (if c = CHR ''-'' then - (of_nat (natOfString (filter isDigit cs)) / 10 ^ 6)
           else of_nat (natOfString (filter isDigit s)) / 10 ^ 6)
      | [] \<Rightarrow> 0)"

text \<open>The coordinates that \<open>toFixed\<close> prints in fixed notation: those of magnitude
  below \<open>10^21\<close>.\<close>

definition fixedNotation :: "BBox \<Rightarrow> bool" where
  "fixedNotation a =
     (\<bar>box_x a\<bar> < 10 ^ 21 \<and> \<bar>box_y a\<bar> < 10 ^ 21 \<and> \<bar>box_w a\<bar> < 10 ^ 21 \<and> \<bar>box_h a\<bar> < 10 ^ 21)"

text \<open>A \<open>Number::toString\<close> that agrees with ECMAScript at \<open>10^21\<close>, where it yields
  \<open>1e+21\<close>.\<close>

definition exponent1e21 :: "real \<Rightarrow> string" where
  "exponent1e21 v = ''1e+21''"

section \<open>The coordinate transform in binary64 arithmetic\<close>

text \<open>
  The arithmetic of a JavaScript \<open>number\<close> rounds the exact result of each operation to
  the nearest binary64 value, ties to even. \<open>roundDouble\<close> is that rounding for values in
  the normal range (53 significant bits; no overflow, no subnormals).
\<close>

definition roundTiesToEven :: "real \<Rightarrow> int" where
  "roundTiesToEven t =
     (let f = \<lfloor>t\<rfloor>; d = t - of_int f
      in if d < 1 / 2 then f else if d > 1 / 2 then f + 1 else if even f then f else f + 1)"

definition roundDouble :: "real \<Rightarrow> real" where
  "roundDouble r =
     (if r = 0 then 0
      else (let e = \<lfloor>log 2 \<bar>r\<bar>\<rfloor>;
                q = 2 powr (of_int e - 52)
            in of_int (roundTiesToEven (r / q)) * q))"

definition yoloToSvg_double :: "BBox \<Rightarrow> real \<Rightarrow> real \<Rightarrow> Rect" where
  "yoloToSvg_double bbox imgWidth imgHeight =
     (let w = roundDouble (box_w bbox * imgWidth);
          h = roundDouble (box_h bbox * imgHeight);
          x = roundDouble (roundDouble (box_x bbox * imgWidth) - roundDouble (w / 2));
          y = roundDouble (roundDouble (box_y bbox * imgHeight) - roundDouble (h / 2))
      in \<lparr>rect_x = x, rect_y = y, rect_w = w, rect_h = h\<rparr>)"

definition svgToYolo_double ::
  "real \<Rightarrow> real \<Rightarrow> real \<Rightarrow> real \<Rightarrow> real \<Rightarrow> real \<Rightarrow> YoloBox" where
  "svgToYolo_double x y w h imgWidth imgHeight =
     (let cx = roundDouble (roundDouble (x + roundDouble (w / 2)) / imgWidth);
          cy = roundDouble (roundDouble (y + roundDouble (h / 2)) / imgHeight);
          nw = roundDouble (w / imgWidth);
          nh = roundDouble (h / imgHeight)
      in \<lparr>yolo_x = cx, yolo_y = cy, yolo_w = nw, yolo_h = nh\<rparr>)"

text \<open>The round trip \<open>svgToYolo(yoloToSvg(box))\<close>, exact and in binary64.\<close>

definition roundTrip :: "BBox \<Rightarrow> real \<Rightarrow> real \<Rightarrow> YoloBox" where
  "roundTrip bbox imgWidth imgHeight =
     (let r = yoloToSvg bbox imgWidth imgHeight
      in svgToYolo (rect_x r) (rect_y r) (rect_w r) (rect_h r) imgWidth imgHeight)"

definition roundTrip_double :: "BBox \<Rightarrow> real \<Rightarrow> real \<Rightarrow> YoloBox" where
  "roundTrip_double bbox imgWidth imgHeight =
     (let r = yoloToSvg_double bbox imgWidth imgHeight
      in svgToYolo_double (rect_x r) (rect_y r) (rect_w r) (rect_h r) imgWidth imgHeight)"

subsection \<open>The resize gesture in binary64 arithmetic\<close>

text \<open>\<open>getMousePos\<close>, the resize computation and \<open>handleMouseMove\<close> with every
  operation rounded as the source computes it. \<open>Math.min\<close> and \<open>Math.max\<close> do not round.\<close>

definition getMousePos_double :: "CanvasState \<Rightarrow> MouseEvent \<Rightarrow> real \<times> real" where
  "getMousePos_double st e =
     (case containerRect e of
        None \<Rightarrow> (0, 0)
      | Some (rleft, rtop) \<Rightarrow>
          (roundDouble (roundDouble (roundDouble (clientX e - rleft) - fst (cs_pan st))
                        / cs_zoom st),
           roundDouble (roundDouble (roundDouble (clientY e - rtop) - snd (cs_pan st))
                        / cs_zoom st)))"

definition resizeRect_double :: "ResizeHandleType \<Rightarrow> Rect \<Rightarrow> real \<Rightarrow> real \<Rightarrow> Rect" where
  "resizeRect_double hdl rect x y =
     (case hdl of
        handle_tl \<Rightarrow>
          (let brX = roundDouble (rect_x rect + rect_w rect);
               brY = roundDouble (rect_y rect + rect_h rect);
               newX = min x (roundDouble (brX - 5));
               newY = min y (roundDouble (brY - 5));
               newW = roundDouble (brX - newX);
               newH = roundDouble (brY - newY)
           in \<lparr>rect_x = newX, rect_y = newY, rect_w = newW, rect_h = newH\<rparr>)
      | handle_tr \<Rightarrow>
          (let blX = rect_x rect;
               blY = roundDouble (rect_y rect + rect_h rect);
               newY = min y (roundDouble (blY - 5));
               newW = max (roundDouble (x - blX)) 5;
               newH = roundDouble (blY - newY)
           in \<lparr>rect_x = rect_x rect, rect_y = newY, rect_w = newW, rect_h = newH\<rparr>)
      | handle_bl \<Rightarrow>
          (let trX = roundDouble (rect_x rect + rect_w rect);
               trY = rect_y rect;
               newX = min x (roundDouble (trX - 5));
               newW = roundDouble (trX - newX);
               newH = max (roundDouble (y - trY)) 5
           in \<lparr>rect_x = newX, rect_y = rect_y rect, rect_w = newW, rect_h = newH\<rparr>)
      | handle_br \<Rightarrow>
          (let tlX = rect_x rect;
               tlY = rect_y rect;
               newW = max (roundDouble (x - tlX)) 5;
               newH = max (roundDouble (y - tlY)) 5
           in \<lparr>rect_x = rect_x rect, rect_y = rect_y rect, rect_w = newW, rect_h = newH\<rparr>))"

definition handleMouseMove_double :: "CanvasState \<Rightarrow> MouseEvent \<Rightarrow> effect list" where
  "handleMouseMove_double st e =
     (let img = cs_image st in
      if cs_mode st = PAN \<and> isDragging st \<and> dragStart st \<noteq> None then
        (case dragStart st of
           Some (sx, sy) \<Rightarrow>
             (let dx = roundDouble (clientX e - sx); dy = roundDouble (clientY e - sy)
              in [OnPanChange (roundDouble (fst (cs_pan st) + dx))
                    (roundDouble (snd (cs_pan st) + dy)),
                  SetDragStart (clientX e, clientY e)])
         | None \<Rightarrow> [])
      else
        (let (x, y) = getMousePos_double st e in
         if cs_mode st = DRAW \<and> isDragging st \<and> dragStart st \<noteq> None then
           (case dragStart st of
              Some (sx, sy) \<Rightarrow>
                (let w = roundDouble (x - sx); h = roundDouble (y - sy)
                 in [SetActiveCreation
                       \<lparr>rect_x = (if w > 0 then sx else x), rect_y = (if h > 0 then sy else y),
                        rect_w = \<bar>w\<bar>, rect_h = \<bar>h\<bar>\<rparr>])
            | None \<Rightarrow> [])
         else if cs_mode st = SELECT \<and> resizeHandle st \<noteq> None
                 \<and> truthy (selectedAnnotationId st) then
           (case (resizeHandle st,
                  find (\<lambda>a. Some (ann_id a) = selectedAnnotationId st) (annotations img)) of
              (Some hdl, Some ann) \<Rightarrow>
                (let rect = yoloToSvg_double ann (width img) (height img);
                     r = resizeRect_double hdl rect x y;
                     newYolo = svgToYolo_double (rect_x r) (rect_y r) (rect_w r) (rect_h r)
                                 (width img) (height img);
                     updatedAnns = map (\<lambda>a. if ann_id a = ann_id ann then withGeometry a newYolo
                                              else a) (annotations img)
                 in [OnUpdateAnnotations updatedAnns])
            | _ \<Rightarrow> [])
         else if cs_mode st = SELECT \<and> isDragging st \<and> truthy (draggingAnnotationId st) then
           (case (find (\<lambda>a. Some (ann_id a) = draggingAnnotationId st) (annotations img),
                  dragStart st) of
              (Some ann, Some (sx, sy)) \<Rightarrow>
                (let dx = roundDouble (roundDouble (x - sx) / width img);
                     dy = roundDouble (roundDouble (y - sy) / height img);
                     newAnns = map (\<lambda>a. if Some (ann_id a) = draggingAnnotationId st
                                          then a\<lparr>box_x := roundDouble (box_x a + dx),
                                                 box_y := roundDouble (box_y a + dy)\<rparr>
                                          else a) (annotations img)
                 in [OnUpdateAnnotations newAnns, SetDragStart (x, y)])
            | _ \<Rightarrow> [])
         else []))"

section \<open>Example inputs\<close>

text \<open>Inputs at which the statements below are evaluated: a label, an image of a given
  size without annotations, and a detection with a given box and confidence.\<close>

definition exampleLabel :: LabelClass where
  "exampleLabel = \<lparr>label_id = ''0'', label_name = ''person'', color = ''#ef4444''\<rparr>"

definition exampleImage :: "real \<Rightarrow> real \<Rightarrow> DatasetImage" where
  "exampleImage w h =
     \<lparr>image_id = ''img'', image_name = ''a.jpg'', width = w, height = h, annotations = [],
      status = unlabeled\<rparr>"

definition exampleDetection :: "real list \<Rightarrow> real option \<Rightarrow> GeminiDetectionResult" where
  "exampleDetection box conf =
     \<lparr>label = ''person'', box_2d = box, confidence = conf, description = None\<rparr>"

definition exampleAnnotation :: "string \<Rightarrow> string \<Rightarrow> BBox" where
  "exampleAnnotation aid lid =
     \<lparr>ann_id = aid, labelId = lid, box_x = 1 / 2, box_y = 1 / 2, box_w = 1 / 4, box_h = 1 / 4\<rparr>"

text \<open>A canvas in select mode on a 640 by 480 image whose one annotation is selected and
  is being resized by the given handle, and a pointer event at \<open>(100, 50)\<close>.\<close>

definition exampleCanvas :: "ResizeHandleType \<Rightarrow> CanvasState" where
  "exampleCanvas hdl =
     \<lparr>cs_image = (exampleImage 640 480)\<lparr>annotations := [exampleAnnotation ''a1'' ''0'']\<rparr>,
      cs_mode = SELECT, cs_zoom = 1, cs_pan = (0, 0), selectedAnnotationId = Some ''a1'',
      isDragging = True, dragStart = None, activeCreation = None,
      draggingAnnotationId = None, resizeHandle = Some hdl\<rparr>"

definition exampleEvent :: MouseEvent where
  "exampleEvent = \<lparr>clientX = 100, clientY = 50, containerRect = Some (0, 0)\<rparr>"

text \<open>A dataset with the labels \<open>A\<close> (3 annotations) and \<open>B\<close> (2 annotations) over two
  images.\<close>

definition exampleDataset :: Dataset where
  "exampleDataset =
     \<lparr>images =
        [(exampleImage 640 480)\<lparr>annotations :=
           [exampleAnnotation ''a1'' ''A'', exampleAnnotation ''a2'' ''A'',
            exampleAnnotation ''a3'' ''B'']\<rparr>,
         (exampleImage 640 480)\<lparr>annotations :=
           [exampleAnnotation ''a4'' ''A'', exampleAnnotation ''a5'' ''B'']\<rparr>],
      labels =
        [\<lparr>label_id = ''A'', label_name = ''cat'', color = ''#ef4444''\<rparr>,
         \<lparr>label_id = ''B'', label_name = ''dog'', color = ''#3b82f6''\<rparr>]\<rparr>"

text \<open>The two annotations of the export example, for the labels \<open>A\<close> (index 0) and \<open>B\<close>
  (index 1) of \<open>exampleDataset\<close>.\<close>

definition exportExample :: "BBox list" where
  "exportExample =
     [\<lparr>ann_id = ''e1'', labelId = ''A'', box_x = 1 / 2, box_y = 1 / 2, box_w = 1 / 4,
       box_h = 1 / 4\<rparr>,
      \<lparr>ann_id = ''e2'', labelId = ''B'', box_x = 1 / 10, box_y = 1 / 5, box_w = 1 / 20,
       box_h = 1 / 20\<rparr>]"

text \<open>A box whose centre lies \<open>2^-70\<close> from the left edge and whose width is the whole
  image; every field is a binary64 value.\<close>

definition twoToMinus70 :: real where
  "twoToMinus70 = 1 / 2 ^ 70"

definition cancellationExample :: BBox where
  "cancellationExample =
     \<lparr>ann_id = ''c1'', labelId = ''0'', box_x = twoToMinus70, box_y = 1 / 2, box_w = 1,
      box_h = 1\<rparr>"

text \<open>A pointer event at \<open>(400, 301)\<close>, and the annotation that the bottom-right resize of
  \<open>exampleCanvas\<close> stores at it in binary64: \<open>y\<close> and \<open>h\<close> are the binary64 values of
  \<open>240.5 / 480\<close> and \<open>121 / 480\<close>.\<close>

definition resizeEvent :: MouseEvent where
  "resizeEvent = \<lparr>clientX = 400, clientY = 301, containerRect = Some (0, 0)\<rparr>"

definition resizedExample :: BBox where
  "resizedExample =
     \<lparr>ann_id = ''a1'', labelId = ''0'', box_x = 1 / 2,
      box_y = 4512982126594185 / 9007199254740992, box_w = 1 / 4,
      box_h = 2270564812132625 / 9007199254740992\<rparr>"

section \<open>Properties of the detection steps\<close>

lemma ensureMinimum_positive:
  assumes "0 \<le> lo" "lo \<le> 1" "0 \<le> hi" "hi \<le> 1"
  shows "fst (ensureMinimum lo hi) < snd (ensureMinimum lo hi)"
proof (cases "hi - lo < MIN_SIZE")
  case True
  define c where "c = (lo + hi) / 2"
  have c: "0 \<le> c" "c \<le> 1" using assms by (simp_all add: c_def)
  have "max 0 (c - 1 / 200) < min 1 (c + 1 / 200)"
    using c by (simp add: max_def min_def)
  with True show ?thesis
    by (simp add: ensureMinimum_def MIN_SIZE_def Let_def c_def)
next
  case False
  then show ?thesis by (simp add: ensureMinimum_def MIN_SIZE_def)
qed

lemma ensureMinimum_range:
  assumes "0 \<le> lo" "lo \<le> 1" "0 \<le> hi" "hi \<le> 1"
  shows "0 \<le> fst (ensureMinimum lo hi) \<and> snd (ensureMinimum lo hi) \<le> 1"
  using assms by (simp add: ensureMinimum_def Let_def)

lemma clampBBox_four:
  "clampBBox [a, b, c, d] =
     Some [fst (ensureMinimum (max 0 (min 1 a)) (max 0 (min 1 c))),
           fst (ensureMinimum (max 0 (min 1 b)) (max 0 (min 1 d))),
           snd (ensureMinimum (max 0 (min 1 a)) (max 0 (min 1 c))),
           snd (ensureMinimum (max 0 (min 1 b)) (max 0 (min 1 d)))]"
  by (simp add: clampBBox_def split_beta)

lemma length_four: "length xs = 4 \<Longrightarrow> \<exists>a b c d. xs = [a, b, c, d]"
  by (auto simp: length_Suc_conv numeral_eq_Suc)

lemma clamp01: "0 \<le> max 0 (min 1 v) \<and> max 0 (min 1 v) \<le> (1::real)"
  by (simp add: max_def min_def)

lemma clampBBox_positive:
  assumes "length box = 4"
  shows "\<exists>ymin xmin ymax xmax. clampBBox box = Some [ymin, xmin, ymax, xmax]
           \<and> ymin < ymax \<and> xmin < xmax \<and> 0 \<le> ymin \<and> ymax \<le> 1 \<and> 0 \<le> xmin \<and> xmax \<le> 1"
proof -
  obtain a b c d where box: "box = [a, b, c, d]"
    using length_four [OF assms] by blast
  define a' b' c' d' where "a' = max 0 (min 1 a)" and "b' = max 0 (min 1 b)"
    and "c' = max 0 (min 1 c)" and "d' = max 0 (min 1 d)"
  have r: "0 \<le> a'" "a' \<le> 1" "0 \<le> b'" "b' \<le> 1" "0 \<le> c'" "c' \<le> 1" "0 \<le> d'" "d' \<le> 1"
    using clamp01 by (simp_all add: a'_def b'_def c'_def d'_def)
  have y: "fst (ensureMinimum a' c') < snd (ensureMinimum a' c')"
    by (rule ensureMinimum_positive) (rule r)+
  have x: "fst (ensureMinimum b' d') < snd (ensureMinimum b' d')"
    by (rule ensureMinimum_positive) (rule r)+
  have yr: "0 \<le> fst (ensureMinimum a' c') \<and> snd (ensureMinimum a' c') \<le> 1"
    by (rule ensureMinimum_range) (rule r)+
  have xr: "0 \<le> fst (ensureMinimum b' d') \<and> snd (ensureMinimum b' d') \<le> 1"
    by (rule ensureMinimum_range) (rule r)+
  have "clampBBox box = Some [fst (ensureMinimum a' c'), fst (ensureMinimum b' d'),
                              snd (ensureMinimum a' c'), snd (ensureMinimum b' d')]"
    unfolding box clampBBox_four a'_def b'_def c'_def d'_def ..
  with x y xr yr show ?thesis by blast
qed

lemma toYoloGeometry_accepts:
  "ymin < ymax \<Longrightarrow> xmin < xmax \<Longrightarrow> \<exists>g. toYoloGeometry ymin xmin ymax xmax = Inr g"
  by (simp add: toYoloGeometry_def Let_def)

lemma numbers_length: "list_all (\<lambda>v. v \<noteq> NaN) b \<Longrightarrow> length (numbers b) = length b"
proof (induction b)
  case Nil
  then show ?case by simp
next
  case (Cons v b)
  then show ?case by (cases v) simp_all
qed

lemma processDetection_accepts:
  assumes "\<not> belowThreshold res minConf"
      and "normalizeCoordinates (map Num (box_2d res)) (width img) (height img) = Some b"
      and "validateBBox (swapInverted b)"
  shows "\<exists>ann. processDetection img minConf labelObj newId res = Inr ann"
proof -
  have "length (numbers (swapInverted b)) = 4"
    using assms(3) numbers_length [of "swapInverted b"] by (simp add: validateBBox_def)
  from clampBBox_positive [OF this] obtain ymin xmin ymax xmax where
    c: "clampBBox (numbers (swapInverted b)) = Some [ymin, xmin, ymax, xmax]"
    and y: "ymin < ymax" and x: "xmin < xmax"
    by blast
  from toYoloGeometry_accepts [OF y x] obtain g where
    g: "toYoloGeometry ymin xmin ymax xmax = Inr g" by blast
  show ?thesis
    using assms by (simp add: processDetection_def Let_def c g)
qed

text \<open>
  Claim C7. For every four-element input, the output \<open>[ymin, xmin, ymax, xmax]\<close> of
  \<open>clampBBox\<close> has \<open>ymax - ymin > 0\<close> and \<open>xmax - xmin > 0\<close>, so the final guard of
  the geometry conversion (\<open>w <= 0 || h <= 0\<close>) does not reject it: a detection that
  passes the confidence filter, the coordinate step and \<open>validateBBox\<close> yields an
  annotation.
\<close>

theorem clampBBox_output_has_positive_size:
  assumes "length box = 4"
  shows "(\<exists>ymin xmin ymax xmax.
            clampBBox box = Some [ymin, xmin, ymax, xmax]
          \<and> ymax - ymin > 0 \<and> xmax - xmin > 0
          \<and> toYoloGeometry ymin xmin ymax xmax \<noteq> Inl InvalidBox)
       \<and> (\<not> belowThreshold res minConf
            \<and> normalizeCoordinates (map Num (box_2d res)) (width img) (height img) = Some b
            \<and> validateBBox (swapInverted b) \<longrightarrow>
          (\<exists>ann. processDetection img minConf labelObj newId res = Inr ann))"
proof -
  obtain ymin xmin ymax xmax where
    c: "clampBBox box = Some [ymin, xmin, ymax, xmax]" and y: "ymin < ymax" and x: "xmin < xmax"
    using clampBBox_positive [OF assms] by blast
  from toYoloGeometry_accepts [OF y x] have "toYoloGeometry ymin xmin ymax xmax \<noteq> Inl InvalidBox"
    by auto
  with c y x processDetection_accepts [of res minConf img b labelObj newId] show ?thesis
    by auto
qed

text \<open>Claim C7 at the box \<open>[0.50, 0.50, 0.505, 0.505]\<close>.\<close>

theorem clampBBox_output_has_positive_size_witness:
  "length [1/2, 1/2, 101/200, 101/200 :: real] = 4
   \<and> (\<exists>ymin xmin ymax xmax.
        clampBBox [1/2, 1/2, 101/200, 101/200] = Some [ymin, xmin, ymax, xmax]
      \<and> ymax - ymin > 0 \<and> xmax - xmin > 0
      \<and> toYoloGeometry ymin xmin ymax xmax \<noteq> Inl InvalidBox)
   \<and> \<not> belowThreshold (exampleDetection [1/2, 1/2, 101/200, 101/200] None) (3 / 10)
   \<and> normalizeCoordinates (map Num [1/2, 1/2, 101/200, 101/200]) 640 480
       = Some (map Num [1/2, 1/2, 101/200, 101/200])
   \<and> validateBBox (swapInverted (map Num [1/2, 1/2, 101/200, 101/200]))
   \<and> (\<exists>ann. processDetection (exampleImage 640 480) (3 / 10) exampleLabel ''id''
               (exampleDetection [1/2, 1/2, 101/200, 101/200] None) = Inr ann)"
proof -
  have h: "\<not> belowThreshold (exampleDetection [1/2, 1/2, 101/200, 101/200] None) (3 / 10)"
    "normalizeCoordinates (map Num [1/2, 1/2, 101/200, 101/200]) 640 480
       = Some (map Num [1/2, 1/2, 101/200, 101/200])"
    "validateBBox (swapInverted (map Num [1/2, 1/2, 101/200, 101/200]))"
    by (simp_all add: belowThreshold_def confidenceOf_def exampleDetection_def
          normalizeCoordinates_def swapInverted_def js_nth_def validateBBox_def)
  show ?thesis
    using clampBBox_output_has_positive_size [of "[1/2, 1/2, 101/200, 101/200]"
            "exampleDetection [1/2, 1/2, 101/200, 101/200] None" "3 / 10"
            "exampleImage 640 480" "map Num [1/2, 1/2, 101/200, 101/200]" exampleLabel "''id''"] h
    by (simp add: exampleDetection_def exampleImage_def)
qed

lemma js_nth_map_Num: "i < length box \<Longrightarrow> js_nth (map Num box) i = Num (box ! i)"
  by (simp add: js_nth_def)

lemma list_ex_gt_Num: "list_ex (\<lambda>v. js_gt v (Num 1)) (map Num box) = (\<exists>v\<in>set box. v > 1)"
  by (induction box) auto

lemma processDetection_filtered_iff:
  "processDetection img minConf labelObj newId res = Inl FilteredByConfidence
     \<longleftrightarrow> confidenceOf res < minConf"
  by (auto simp: processDetection_def belowThreshold_def Let_def toYoloGeometry_def
           split: option.splits list.splits sum.splits if_splits)

text \<open>
  Claim C8. A detection without a confidence value is treated as confidence \<open>1.0\<close>; a
  detection whose confidence equals \<open>minConfidence\<close> is not filtered; a detection whose
  confidence is strictly less than \<open>minConfidence\<close> is skipped.
\<close>

theorem confidence_filter:
  "(confidence res = None \<longrightarrow> confidenceOf res = 1)
   \<and> (confidenceOf res = minConf \<longrightarrow>
        \<not> belowThreshold res minConf
        \<and> processDetection img minConf labelObj newId res \<noteq> Inl FilteredByConfidence)
   \<and> (confidenceOf res < minConf \<longrightarrow>
        belowThreshold res minConf
        \<and> processDetection img minConf labelObj newId res = Inl FilteredByConfidence)"
  using processDetection_filtered_iff [of img minConf labelObj newId res]
  by (simp add: confidenceOf_def belowThreshold_def)

text \<open>Claim C8 at a missing confidence, at the threshold and just below it.\<close>

theorem confidence_filter_witness:
  "confidence (exampleDetection [1/10, 1/5, 1/2, 3/5] None) = None
   \<and> confidenceOf (exampleDetection [1/10, 1/5, 1/2, 3/5] None) = 1
   \<and> confidenceOf (exampleDetection [1/10, 1/5, 1/2, 3/5] (Some (3/10))) = 3/10
   \<and> processDetection (exampleImage 640 480) (3/10) exampleLabel ''id''
        (exampleDetection [1/10, 1/5, 1/2, 3/5] (Some (3/10))) \<noteq> Inl FilteredByConfidence
   \<and> confidenceOf (exampleDetection [1/10, 1/5, 1/2, 3/5] (Some (29/100))) < 3/10
   \<and> processDetection (exampleImage 640 480) (3/10) exampleLabel ''id''
        (exampleDetection [1/10, 1/5, 1/2, 3/5] (Some (29/100))) = Inl FilteredByConfidence"
  using confidence_filter [of "exampleDetection [1/10, 1/5, 1/2, 3/5] None" 1
          "exampleImage 640 480" exampleLabel "''id''"]
        confidence_filter [of "exampleDetection [1/10, 1/5, 1/2, 3/5] (Some (3/10))" "3/10"
          "exampleImage 640 480" exampleLabel "''id''"]
        confidence_filter [of "exampleDetection [1/10, 1/5, 1/2, 3/5] (Some (29/100))" "3/10"
          "exampleImage 640 480" exampleLabel "''id''"]
  by (simp add: exampleDetection_def confidenceOf_def)

text \<open>
  Claim C5. For a detection with four box values: if any value exceeds \<open>1.0\<close> and the
  image size is known, the y-values are divided by the image height and the x-values by the
  image width; if any value exceeds \<open>1.0\<close> and the width or the height is zero, the
  detection is skipped; if no value exceeds \<open>1.0\<close>, the values are used unchanged.
\<close>

theorem coordinate_space_step:
  assumes "length (box_2d res) = 4"
  shows "((\<exists>v\<in>set (box_2d res). v > 1) \<and> width img > 0 \<and> height img > 0 \<longrightarrow>
            normalizeCoordinates (map Num (box_2d res)) (width img) (height img)
              = Some [Num (box_2d res ! 0 / height img), Num (box_2d res ! 1 / width img),
                      Num (box_2d res ! 2 / height img), Num (box_2d res ! 3 / width img)])
       \<and> ((\<exists>v\<in>set (box_2d res). v > 1) \<and> (width img = 0 \<or> height img = 0) \<longrightarrow>
            normalizeCoordinates (map Num (box_2d res)) (width img) (height img) = None
            \<and> (\<not> belowThreshold res minConf \<longrightarrow>
                 processDetection img minConf labelObj newId res = Inl InvalidBox))
       \<and> ((\<forall>v\<in>set (box_2d res). v \<le> 1) \<longrightarrow>
            normalizeCoordinates (map Num (box_2d res)) (width img) (height img)
              = Some (map Num (box_2d res)))"
proof (intro conjI impI)
  assume a: "(\<exists>v\<in>set (box_2d res). v > 1) \<and> width img > 0 \<and> height img > 0"
  then show "normalizeCoordinates (map Num (box_2d res)) (width img) (height img)
              = Some [Num (box_2d res ! 0 / height img), Num (box_2d res ! 1 / width img),
                      Num (box_2d res ! 2 / height img), Num (box_2d res ! 3 / width img)]"
    using assms by (simp add: normalizeCoordinates_def list_ex_gt_Num js_nth_map_Num)
next
  assume a: "(\<exists>v\<in>set (box_2d res). v > 1) \<and> (width img = 0 \<or> height img = 0)"
  then show n: "normalizeCoordinates (map Num (box_2d res)) (width img) (height img) = None"
    by (auto simp: normalizeCoordinates_def list_ex_gt_Num)
  assume "\<not> belowThreshold res minConf"
  with n show "processDetection img minConf labelObj newId res = Inl InvalidBox"
    by (simp add: processDetection_def)
next
  assume "\<forall>v\<in>set (box_2d res). v \<le> 1"
  then have "\<not> (\<exists>v\<in>set (box_2d res). v > 1)" by auto
  then show "normalizeCoordinates (map Num (box_2d res)) (width img) (height img)
              = Some (map Num (box_2d res))"
    by (simp add: normalizeCoordinates_def list_ex_gt_Num)
qed

text \<open>Claim C5 at the two boxes of the specification.\<close>

theorem coordinate_space_step_witness:
  "length (box_2d (exampleDetection [10, 20, 400, 300] None)) = 4
   \<and> (\<exists>v\<in>set (box_2d (exampleDetection [10, 20, 400, 300] None)). v > 1)
   \<and> normalizeCoordinates (map Num [10, 20, 400, 300]) 640 480
       = Some [Num (10 / 480), Num (20 / 640), Num (400 / 480), Num (300 / 640)]
   \<and> normalizeCoordinates (map Num [10, 20, 400, 300]) 0 480 = None
   \<and> processDetection (exampleImage 0 480) (3 / 10) exampleLabel ''id''
        (exampleDetection [10, 20, 400, 300] None) = Inl InvalidBox
   \<and> list_all (\<lambda>v. v \<le> 1) (box_2d (exampleDetection [1/10, 1/5, 1/2, 3/5] None))
   \<and> normalizeCoordinates (map Num [1/10, 1/5, 1/2, 3/5]) 640 480
       = Some (map Num [1/10, 1/5, 1/2, 3/5])"
  using coordinate_space_step [of "exampleDetection [10, 20, 400, 300] None"
          "exampleImage 640 480" "3/10" exampleLabel "''id''"]
        coordinate_space_step [of "exampleDetection [10, 20, 400, 300] None"
          "exampleImage 0 480" "3/10" exampleLabel "''id''"]
        coordinate_space_step [of "exampleDetection [1/10, 1/5, 1/2, 3/5] None"
          "exampleImage 640 480" "3/10" exampleLabel "''id''"]
  by (simp add: exampleDetection_def exampleImage_def belowThreshold_def confidenceOf_def)

text \<open>
  Claim C2 says that \<open>minConfidence\<close> defaults to \<open>0.3\<close>, as the comment on
  \<open>AutoLabelConfig\<close> does. The destructuring in \<open>autoLabelImage\<close> gives it the default
  \<open>0.93\<close>: with the empty configuration a detection of confidence \<open>0.5\<close> is filtered,
  which a threshold of \<open>0.3\<close> would accept.
\<close>

theorem default_minConfidence_is_093:
  "r_minConfidence (resolveConfig emptyConfig) = 93 / 100
   \<and> r_minConfidence (resolveConfig emptyConfig) \<noteq> 3 / 10
   \<and> processDetection (exampleImage 640 480) (r_minConfidence (resolveConfig emptyConfig))
        exampleLabel ''id'' (exampleDetection [1/10, 1/5, 1/2, 3/5] (Some (1/2)))
       = Inl FilteredByConfidence
   \<and> processDetection (exampleImage 640 480) (3 / 10)
        exampleLabel ''id'' (exampleDetection [1/10, 1/5, 1/2, 3/5] (Some (1/2)))
       \<noteq> Inl FilteredByConfidence"
  by (simp add: resolveConfig_def emptyConfig_def orDefault_def processDetection_filtered_iff
        confidenceOf_def exampleDetection_def)

section \<open>Properties of the retry wrapper\<close>

lemma retryLoop_stop:
  "\<not> attempt \<le> m \<Longrightarrow> retryLoop fn m attempt d le calls sl = (Inl le, calls, sl)"
  by (subst retryLoop.simps) simp

lemma retryLoop_success:
  "attempt \<le> m \<Longrightarrow> fn calls = Inr v \<Longrightarrow>
   retryLoop fn m attempt d le calls sl = (Inr v, Suc calls, sl)"
  by (subst retryLoop.simps) simp

lemma retryLoop_retry:
  "attempt < m \<Longrightarrow> fn calls = Inl err \<Longrightarrow>
   retryLoop fn m attempt d le calls sl
     = retryLoop fn m (attempt + 1) (d * 2) (Some err) (Suc calls) (sl @ [d])"
  by (subst retryLoop.simps) simp

lemma retryLoop_last:
  "fn calls = Inl err \<Longrightarrow>
   retryLoop fn m m d le calls sl = (Inl (Some err), Suc calls, sl)"
  by (subst retryLoop.simps) (simp add: retryLoop_stop)

text \<open>What the loop has done when it ends, started at a given attempt.\<close>

lemma retryLoop_spec:
  assumes "attempt \<le> m"
  shows "\<exists>n. 0 < n \<and> int n \<le> m + 1 - attempt
           \<and> (\<forall>k<n - 1. isl (fn (calls + k)))
           \<and> (isl (fn (calls + (n - 1))) \<longrightarrow> int n = m + 1 - attempt)
           \<and> retryLoop fn m attempt d le calls sl
               = ((case fn (calls + (n - 1)) of Inl err \<Rightarrow> Inl (Some err) | Inr v \<Rightarrow> Inr v),
                  calls + n, sl @ map (\<lambda>i. d * 2 ^ i) [0..<n - 1])"
  using assms
proof (induction "nat (m - attempt)" arbitrary: attempt d le calls sl)
  case 0
  then have am: "attempt = m" by simp
  show ?case
  proof (cases "fn calls")
    case (Inl err)
    then show ?thesis
      using retryLoop_last [of fn calls err m d le sl] am by (intro exI [of _ 1]) simp
  next
    case (Inr v)
    then show ?thesis
      using retryLoop_success [of attempt m fn calls v d le sl] "0.prems" by (intro exI [of _ 1]) simp
  qed
next
  case (Suc j)
  then have lt: "attempt < m" by linarith
  show ?case
  proof (cases "fn calls")
    case (Inr v)
    then show ?thesis
      using retryLoop_success [of attempt m fn calls v d le sl] lt by (intro exI [of _ 1]) simp
  next
    case (Inl err)
    have j: "j = nat (m - (attempt + 1))" using Suc.hyps(2) by linarith
    have le': "attempt + 1 \<le> m" using lt by simp
    have "\<exists>n. 0 < n \<and> int n \<le> m + 1 - (attempt + 1)
           \<and> (\<forall>k<n - 1. isl (fn (Suc calls + k)))
           \<and> (isl (fn (Suc calls + (n - 1))) \<longrightarrow> int n = m + 1 - (attempt + 1))
           \<and> retryLoop fn m (attempt + 1) (d * 2) (Some err) (Suc calls) (sl @ [d])
               = ((case fn (Suc calls + (n - 1)) of Inl err \<Rightarrow> Inl (Some err) | Inr v \<Rightarrow> Inr v),
                  Suc calls + n, (sl @ [d]) @ map (\<lambda>i. (d * 2) * 2 ^ i) [0..<n - 1])"
      by (rule Suc.hyps(1) [OF j le'])
    then obtain n where n: "0 < n" "int n \<le> m + 1 - (attempt + 1)"
      "\<forall>k<n - 1. isl (fn (Suc calls + k))"
      "isl (fn (Suc calls + (n - 1))) \<longrightarrow> int n = m + 1 - (attempt + 1)"
      "retryLoop fn m (attempt + 1) (d * 2) (Some err) (Suc calls) (sl @ [d])
         = ((case fn (Suc calls + (n - 1)) of Inl err \<Rightarrow> Inl (Some err) | Inr v \<Rightarrow> Inr v),
            Suc calls + n, (sl @ [d]) @ map (\<lambda>i. (d * 2) * 2 ^ i) [0..<n - 1])"
      by blast
    have idx: "Suc calls + (n - 1) = calls + (Suc n - 1)" using n(1) by simp
    have sl: "(sl @ [d]) @ map (\<lambda>i. (d * 2) * 2 ^ i) [0..<n - 1]
                = sl @ map (\<lambda>i. d * 2 ^ i) [0..<Suc n - 1]"
    proof -
      have "[0..<Suc n - 1] = 0 # map Suc [0..<n - 1]"
        using n(1) by (simp add: upt_conv_Cons map_Suc_upt Suc_diff_Suc del: upt_Suc)
      then show ?thesis by (simp add: comp_def mult.assoc)
    qed
    have all: "\<forall>k<Suc n - 1. isl (fn (calls + k))"
    proof (intro allI impI)
      fix k assume k: "k < Suc n - 1"
      show "isl (fn (calls + k))"
      proof (cases k)
        case 0
        then show ?thesis using Inl by simp
      next
        case (Suc k')
        then have "k' < n - 1" using k by simp
        with n(3) have "isl (fn (Suc calls + k'))" by blast
        then show ?thesis using Suc by simp
      qed
    qed
    show ?thesis
    proof (intro exI [of _ "Suc n"] conjI)
      show "0 < Suc n" by simp
      show "int (Suc n) \<le> m + 1 - attempt" using n(2) by simp
      show "\<forall>k<Suc n - 1. isl (fn (calls + k))" by (rule all)
      show "isl (fn (calls + (Suc n - 1))) \<longrightarrow> int (Suc n) = m + 1 - attempt"
        using n(4) unfolding idx [symmetric] by auto
      show "retryLoop fn m attempt d le calls sl
              = ((case fn (calls + (Suc n - 1)) of Inl err \<Rightarrow> Inl (Some err) | Inr v \<Rightarrow> Inr v),
                 calls + Suc n, sl @ map (\<lambda>i. d * 2 ^ i) [0..<Suc n - 1])"
        using retryLoop_retry [of attempt m fn calls err d le sl] lt Inl n(5) sl idx by simp
    qed
  qed
qed

text \<open>
  Claim C4 says that the wrapper makes at most \<open>maxRetries\<close> attempts in total. With
  \<open>maxRetries = 3\<close> and a call that always throws, it makes four: the loop runs for
  \<open>attempt = 0, ..., maxRetries\<close>.
\<close>

theorem retryAsync_attempts_counterexample:
  "retryAsync alwaysFails 3 None = (Inl (Some 3), 4, [1000, 2000, 4000])
   \<and> \<not> int (fst (snd (retryAsync alwaysFails 3 None))) \<le> 3"
  by (simp add: retryAsync_def orDefault_def alwaysFails_def retryLoop_retry retryLoop_last)

text \<open>
  Claim C4, amended. For \<open>maxRetries \<ge> 0\<close> (default 3) the wrapper makes \<open>n\<close> calls with
  \<open>1 \<le> n \<le> maxRetries + 1\<close>: one first attempt and up to \<open>maxRetries\<close> retries. Every
  call but the last one threw. The delays awaited between consecutive calls are
  \<open>retryDelay, 2 * retryDelay, 4 * retryDelay, ...\<close> (base delay 1000 by default), one
  after each failed call that is followed by another. If the last call threw too, then all
  \<open>maxRetries + 1\<close> attempts were made and its error is thrown to the caller; otherwise its
  value is returned.
\<close>

theorem retryAsync_policy:
  assumes "0 \<le> maxRetr"
  shows "r_maxRetries (resolveConfig emptyConfig) = 3
       \<and> (\<exists>n. 0 < n \<and> int n \<le> maxRetr + 1
              \<and> (\<forall>k<n - 1. isl (fn k))
              \<and> (isl (fn (n - 1)) \<longrightarrow> int n = maxRetr + 1)
              \<and> retryAsync fn maxRetr retryDelay
                  = ((case fn (n - 1) of Inl err \<Rightarrow> Inl (Some err) | Inr v \<Rightarrow> Inr v), n,
                     map (\<lambda>i. orDefault retryDelay 1000 * 2 ^ i) [0..<n - 1]))"
  using retryLoop_spec [OF assms, of fn 0 "orDefault retryDelay 1000" None "[]"]
  by (simp add: retryAsync_def resolveConfig_def emptyConfig_def orDefault_def)

text \<open>Claim C4, amended, at \<open>maxRetries = 3\<close> and a call that always throws.\<close>

theorem retryAsync_policy_witness:
  "(0::int) \<le> 3
   \<and> (\<exists>n. 0 < n \<and> int n \<le> 3 + 1
          \<and> (\<forall>k<n - 1. isl (alwaysFails k))
          \<and> (isl (alwaysFails (n - 1)) \<longrightarrow> int n = 3 + 1)
          \<and> retryAsync alwaysFails 3 None
              = ((case alwaysFails (n - 1) of Inl err \<Rightarrow> Inl (Some err) | Inr v \<Rightarrow> Inr v), n,
                 map (\<lambda>i. orDefault None 1000 * 2 ^ i) [0..<n - 1]))"
  using retryAsync_policy [of 3 alwaysFails None] by simp

section \<open>Properties of the coordinate transform and of resizing\<close>

lemma roundTrip_exact:
  assumes "imgWidth \<noteq> 0" "imgHeight \<noteq> 0"
  shows "roundTrip bbox imgWidth imgHeight
           = \<lparr>yolo_x = box_x bbox, yolo_y = box_y bbox, yolo_w = box_w bbox, yolo_h = box_h bbox\<rparr>"
  using assms by (simp add: roundTrip_def yoloToSvg_def svgToYolo_def Let_def)

lemma yoloToSvg_svgToYolo:
  assumes "imgWidth \<noteq> 0" "imgHeight \<noteq> 0"
  shows "yoloToSvg (withGeometry a (svgToYolo x y w h imgWidth imgHeight)) imgWidth imgHeight
           = \<lparr>rect_x = x, rect_y = y, rect_w = w, rect_h = h\<rparr>"
  using assms by (simp add: yoloToSvg_def svgToYolo_def withGeometry_def Let_def)

lemma resizeRect_oppositeCorner:
  "oppositeCorner hdl (resizeRect hdl r x y) = oppositeCorner hdl r"
  by (cases hdl) (simp_all add: oppositeCorner_def resizeRect_def Let_def)

lemma find_map_update:
  assumes "find (\<lambda>a. ann_id a = sid) anns = Some ann"
  shows "find (\<lambda>a. ann_id a = sid)
           (map (\<lambda>a. if ann_id a = ann_id ann then withGeometry a g else a) anns)
         = Some (withGeometry ann g)"
proof -
  have sid: "ann_id ann = sid" using assms by (auto simp: find_Some_iff)
  have "find (\<lambda>a. ann_id a = sid)
           (map (\<lambda>a. if ann_id a = sid then withGeometry a g else a) anns)
         = Some (withGeometry ann g)"
    using assms by (induction anns) (auto simp: withGeometry_def)
  then show ?thesis by (simp add: sid)
qed

text \<open>In exact arithmetic a pointer-move update of a resize leaves the opposite corner where
  it was.\<close>

lemma resize_exact:
  assumes "cs_mode st = SELECT"
      and "resizeHandle st = Some hdl"
      and "selectedAnnotationId st = Some sid" and "sid \<noteq> []"
      and "find (\<lambda>a. ann_id a = sid) (annotations (cs_image st)) = Some ann"
      and "width (cs_image st) > 0" and "height (cs_image st) > 0"
  shows "\<exists>anns' ann'.
           handleMouseMove st e = [OnUpdateAnnotations anns']
         \<and> find (\<lambda>a. ann_id a = sid) anns' = Some ann'
         \<and> yoloToSvg ann' (width (cs_image st)) (height (cs_image st))
             = resizeRect hdl (yoloToSvg ann (width (cs_image st)) (height (cs_image st)))
                 (fst (getMousePos st e)) (snd (getMousePos st e))
         \<and> oppositeCorner hdl (yoloToSvg ann' (width (cs_image st)) (height (cs_image st)))
             = oppositeCorner hdl (yoloToSvg ann (width (cs_image st)) (height (cs_image st)))"
proof -
  define W H where "W = width (cs_image st)" and "H = height (cs_image st)"
  define rect where "rect = yoloToSvg ann W H"
  define r where "r = resizeRect hdl rect (fst (getMousePos st e)) (snd (getMousePos st e))"
  define g where "g = svgToYolo (rect_x r) (rect_y r) (rect_w r) (rect_h r) W H"
  define anns' where
    "anns' = map (\<lambda>a. if ann_id a = ann_id ann then withGeometry a g else a)
               (annotations (cs_image st))"
  have nz: "W \<noteq> 0" "H \<noteq> 0" using assms(6,7) by (simp_all add: W_def H_def)
  have move: "handleMouseMove st e = [OnUpdateAnnotations anns']"
    using assms(1-5)
    by (simp add: handleMouseMove_def truthy_def Let_def split_beta anns'_def g_def r_def
          rect_def W_def H_def)
  have found: "find (\<lambda>a. ann_id a = sid) anns' = Some (withGeometry ann g)"
    unfolding anns'_def by (rule find_map_update [OF assms(5)])
  have rt: "yoloToSvg (withGeometry ann g) W H = r"
    unfolding g_def by (simp add: yoloToSvg_svgToYolo [OF nz])
  have corner: "oppositeCorner hdl r = oppositeCorner hdl rect"
    unfolding r_def by (rule resizeRect_oppositeCorner)
  show ?thesis
    using move found rt corner
    unfolding r_def rect_def W_def H_def by (intro exI [of _ anns'] exI [of _ "withGeometry ann g"]) simp
qed

section \<open>Properties of the label merge\<close>

lemma foldl_add_sum_list:
  "foldl (\<lambda>acc x. acc + f x) (a::nat) xs = a + sum_list (map f xs)"
  by (induction xs arbitrary: a) simp_all

lemma countLabel_sum:
  "countLabel lid imgs = sum_list (map (\<lambda>img. length (filter (\<lambda>a. labelId a = lid) (annotations img))) imgs)"
  by (simp add: countLabel_def foldl_add_sum_list)

lemma totalAnnotations_sum:
  "totalAnnotations imgs = sum_list (map (\<lambda>img. length (annotations img)) imgs)"
  by (simp add: totalAnnotations_def foldl_add_sum_list)

lemma relabel_count_target:
  assumes "sourceId \<noteq> targetId"
  shows "length (filter (\<lambda>a. labelId (relabel sourceId targetId a) = targetId) anns)
           = length (filter (\<lambda>a. labelId a = sourceId) anns)
             + length (filter (\<lambda>a. labelId a = targetId) anns)"
  using assms by (induction anns) (auto simp: relabel_def)

lemma relabel_count_source:
  assumes "sourceId \<noteq> targetId"
  shows "filter (\<lambda>a. labelId (relabel sourceId targetId a) = sourceId) anns = []"
  using assms by (induction anns) (auto simp: relabel_def)

lemma merge_images_total:
  "totalAnnotations (map (\<lambda>img. img\<lparr>annotations := map (relabel s t) (annotations img)\<rparr>) imgs)
     = totalAnnotations imgs"
  by (simp add: totalAnnotations_sum comp_def)

lemma merge_images_target:
  assumes "s \<noteq> t"
  shows "countLabel t (map (\<lambda>img. img\<lparr>annotations := map (relabel s t) (annotations img)\<rparr>) imgs)
     = countLabel s imgs + countLabel t imgs"
  by (induction imgs) (simp_all add: countLabel_sum comp_def relabel_count_target [OF assms])

lemma merge_images_source:
  assumes "s \<noteq> t"
  shows "countLabel s (map (\<lambda>img. img\<lparr>annotations := map (relabel s t) (annotations img)\<rparr>) imgs) = 0"
  by (induction imgs) (simp_all add: countLabel_sum comp_def relabel_count_source [OF assms])

text \<open>
  Claim C6. For existing, distinct label ids \<open>sourceId\<close> and \<open>targetId\<close>, the merge leaves
  the total number of annotations over all images unchanged, the number of annotations
  labelled \<open>targetId\<close> afterwards is the sum of the earlier counts for \<open>sourceId\<close> and
  \<open>targetId\<close>, and no label with \<open>sourceId\<close> remains in the label list. \<open>handleConfirm\<close>
  runs the merge for such ids when they are non-empty strings.
\<close>

theorem merge_preserves_counts:
  assumes "sourceId \<noteq> targetId"
      and "hasLabel sourceId (labels ds)"
      and "hasLabel targetId (labels ds)"
  shows "\<exists>ds'. merge sourceId targetId ds = Inr ds'
           \<and> totalAnnotations (images ds') = totalAnnotations (images ds)
           \<and> countLabel targetId (images ds')
               = countLabel sourceId (images ds) + countLabel targetId (images ds)
           \<and> countLabel sourceId (images ds') = 0
           \<and> \<not> hasLabel sourceId (labels ds')
           \<and> hasLabel targetId (labels ds')
           \<and> labels ds' = filter (\<lambda>l. label_id l \<noteq> sourceId) (labels ds)
           \<and> (sourceId \<noteq> [] \<and> targetId \<noteq> [] \<longrightarrow>
                handleConfirm sourceId targetId (\<lambda>s t. merge s t ds) = Some (Inr ds'))"
proof -
  have t: "hasLabel targetId (filter (\<lambda>l. label_id l \<noteq> sourceId) (labels ds))"
    using assms(1,3) by (auto simp: hasLabel_def list_ex_iff)
  have s: "\<not> hasLabel sourceId (filter (\<lambda>l. label_id l \<noteq> sourceId) (labels ds))"
    by (auto simp: hasLabel_def list_ex_iff)
  show ?thesis
    using assms t s
    by (simp add: merge_def handleConfirm_def merge_images_total merge_images_target
          merge_images_source)
qed

text \<open>Claim C6 at the labels \<open>A\<close> (3 annotations) and \<open>B\<close> (2 annotations).\<close>

theorem merge_preserves_counts_witness:
  "''A'' \<noteq> ''B'' \<and> hasLabel ''A'' (labels exampleDataset) \<and> hasLabel ''B'' (labels exampleDataset)
   \<and> countLabel ''A'' (images exampleDataset) = 3
   \<and> countLabel ''B'' (images exampleDataset) = 2
   \<and> totalAnnotations (images exampleDataset) = 5
   \<and> (\<exists>ds'. merge ''A'' ''B'' exampleDataset = Inr ds'
          \<and> totalAnnotations (images ds') = 5
          \<and> countLabel ''B'' (images ds') = 5
          \<and> countLabel ''A'' (images ds') = 0
          \<and> \<not> hasLabel ''A'' (labels ds')
          \<and> hasLabel ''B'' (labels ds')
          \<and> handleConfirm ''A'' ''B'' (\<lambda>s t. merge s t exampleDataset) = Some (Inr ds'))"
proof -
  have h: "''A'' \<noteq> ''B''" "hasLabel ''A'' (labels exampleDataset)"
    "hasLabel ''B'' (labels exampleDataset)"
    by (simp_all add: exampleDataset_def hasLabel_def)
  have c: "countLabel ''A'' (images exampleDataset) = 3"
    "countLabel ''B'' (images exampleDataset) = 2"
    "totalAnnotations (images exampleDataset) = 5"
    by (simp_all add: exampleDataset_def countLabel_def totalAnnotations_def
          exampleAnnotation_def exampleImage_def)
  show ?thesis
    using merge_preserves_counts [OF h] h c by auto
qed

section \<open>Properties of the export\<close>

lemma findIndex_missing: "\<not> list_ex P xs \<Longrightarrow> findIndex P xs = -1"
  by (induction xs) (simp_all add: Let_def)

lemma findIndex_found:
  "list_ex P xs \<Longrightarrow>
   \<exists>i. findIndex P xs = int i \<and> i < length xs \<and> P (xs ! i) \<and> (\<forall>j<i. \<not> P (xs ! j))"
proof (induction xs)
  case Nil
  then show ?case by simp
next
  case (Cons x xs)
  show ?case
  proof (cases "P x")
    case True
    then show ?thesis by (intro exI [of _ 0]) simp
  next
    case False
    with Cons.prems have "list_ex P xs" by simp
    from Cons.IH [OF this] obtain i where
      i: "findIndex P xs = int i" "i < length xs" "P (xs ! i)" "\<forall>j<i. \<not> P (xs ! j)"
      by blast
    have "\<forall>j<Suc i. \<not> P ((x # xs) ! j)"
      using False i(4) by (auto simp: nth_Cons split: nat.splits)
    with False i show ?thesis
      by (intro exI [of _ "Suc i"]) (simp add: Let_def)
  qed
qed

lemma digitChar_isDigit: "isDigit (digitChar d)"
proof -
  have "d mod 10 < length ''0123456789''" by simp
  then have "''0123456789'' ! (d mod 10) \<in> set ''0123456789''"
    by (rule nth_mem)
  then show ?thesis by (simp only: isDigit_def digitChar_def)
qed

lemma natToString_digits: "natToString n \<noteq> [] \<and> list_all isDigit (natToString n)"
proof (induction n rule: natToString.induct)
  case (1 n)
  show ?case
  proof (cases "n < 10")
    case True
    then show ?thesis
      by (subst (1 2) natToString.simps) (simp add: digitChar_isDigit)
  next
    case False
    with "1.IH" show ?thesis
      by (subst (1 2) natToString.simps) (simp add: digitChar_isDigit)
  qed
qed

lemma isFixed6_shape:
  assumes "ds \<noteq> []" "list_all isDigit ds" "length fs = 6" "list_all isDigit fs"
  shows "isFixed6 (ds @ ''.'' @ fs)" and "isFixed6 (''-'' @ ds @ ''.'' @ fs)"
proof -
  obtain c cs where ds: "ds = c # cs" using assms(1) by (cases ds) auto
  have c: "c \<noteq> CHR ''-''" using assms(2) ds by (auto simp: isDigit_def)
  have len: "length (ds @ ''.'' @ fs) - 7 = length ds" using assms(3) by simp
  have len6: "length (ds @ ''.'' @ fs) - 6 = Suc (length ds)" using assms(3) by simp
  have core: "let t = ds @ ''.'' @ fs; k = length t
              in k \<ge> 8 \<and> t ! (k - 7) = CHR ''.''
                 \<and> list_all isDigit (take (k - 7) t) \<and> list_all isDigit (drop (k - 6) t)"
    unfolding Let_def len len6 using assms ds by (simp add: nth_append)
  show "isFixed6 (ds @ ''.'' @ fs)"
    using core c unfolding isFixed6_def ds by (simp add: Let_def)
  show "isFixed6 (''-'' @ ds @ ''.'' @ fs)"
    using core unfolding isFixed6_def by (simp add: Let_def)
qed

lemma toFixed6_decomp:
  assumes "\<bar>v\<bar> < 10 ^ 21"
  shows "\<exists>ds fs. ds \<noteq> [] \<and> list_all isDigit ds \<and> length fs = 6 \<and> list_all isDigit fs
           \<and> toFixed6 nts v = (if v < 0 then ''-'' else '''') @ ds @ ''.'' @ fs"
proof -
  define n where "n = nat \<lfloor>\<bar>v\<bar> * 10 ^ 6 + 1 / 2\<rfloor>"
  define m where "m = natToString n"
  define m' where "m' = (if length m \<le> 6 then replicate (7 - length m) (CHR ''0'') @ m else m)"
  define k where "k = length m'"
  have md: "list_all isDigit m" using natToString_digits [of n] by (simp add: m_def)
  have z: "isDigit (CHR ''0'')" by (simp add: isDigit_def)
  have m'd: "list_all isDigit m'"
    using md z by (simp add: m'_def list_all_iff)
  have k7: "7 \<le> k" by (simp add: k_def m'_def)
  have tf: "toFixed6 nts v = (if v < 0 then ''-'' else '''') @ take (k - 6) m' @ ''.'' @ drop (k - 6) m'"
    using assms by (simp add: toFixed6_def Let_def n_def m_def m'_def k_def)
  have "take (k - 6) m' \<noteq> []" using k7 by (auto simp: k_def)
  moreover have "list_all isDigit (take (k - 6) m')"
    using m'd by (auto simp: list_all_iff dest: in_set_takeD)
  moreover have "length (drop (k - 6) m') = 6" using k7 by (simp add: k_def)
  moreover have "list_all isDigit (drop (k - 6) m')"
    using m'd by (auto simp: list_all_iff dest: in_set_dropD)
  ultimately show ?thesis using tf by blast
qed

lemma toFixed6_isFixed6: "\<bar>v\<bar> < 10 ^ 21 \<Longrightarrow> isFixed6 (toFixed6 nts v)"
proof -
  assume "\<bar>v\<bar> < 10 ^ 21"
  from toFixed6_decomp [OF this, of nts] obtain ds fs where
    d: "ds \<noteq> []" "list_all isDigit ds" "length fs = 6" "list_all isDigit fs" and
    t: "toFixed6 nts v = (if v < 0 then ''-'' else '''') @ ds @ ''.'' @ fs"
    by blast
  show ?thesis
    using isFixed6_shape [OF d] by (simp add: t)
qed

lemma isDigit_chars: "isDigit c \<Longrightarrow> c \<noteq> CHR 0x0A \<and> c \<noteq> CHR '' ''"
  by (auto simp: isDigit_def)

lemma toFixed6_chars:
  assumes "\<bar>v\<bar> < 10 ^ 21"
  shows "CHR 0x0A \<notin> set (toFixed6 nts v)"
proof -
  from toFixed6_decomp [OF assms, of nts] obtain ds fs where
    d: "list_all isDigit ds" "list_all isDigit fs" and
    t: "toFixed6 nts v = (if v < 0 then ''-'' else '''') @ ds @ ''.'' @ fs"
    by blast
  have "CHR 0x0A \<notin> set ds" "CHR 0x0A \<notin> set fs"
    using d isDigit_chars by (auto simp: list_all_iff)
  then show ?thesis by (simp add: t)
qed

lemma splitOn_no_sep: "c \<notin> set l \<Longrightarrow> splitOn c l = [l]"
  by (induction l) auto

lemma splitOn_line: "c \<notin> set l \<Longrightarrow> splitOn c (l @ c # rest) = l # splitOn c rest"
  by (induction l) auto

lemma splitOn_join:
  "ls \<noteq> [] \<Longrightarrow> \<forall>l\<in>set ls. c \<notin> set l \<Longrightarrow> splitOn c (join [c] ls) = ls"
proof (induction "[c]" ls rule: join.induct)
  case 1
  then show ?case by simp
next
  case (2 l)
  then show ?case by (simp add: splitOn_no_sep)
next
  case (3 l m ls)
  then show ?case by (simp add: splitOn_line)
qed

lemma below_ten:
  "(k::nat) < 10 \<Longrightarrow>
   k = 0 \<or> k = 1 \<or> k = 2 \<or> k = 3 \<or> k = 4 \<or> k = 5 \<or> k = 6 \<or> k = 7 \<or> k = 8 \<or> k = 9"
  by arith

lemma digitValue_digitChar: "digitValue (digitChar d) = d mod 10"
proof -
  have "d mod 10 < 10" by simp
  from below_ten [OF this] show ?thesis
    by (elim disjE) (simp_all add: digitChar_def digitValue_def)
qed

lemma natOfString_snoc: "natOfString (s @ [c]) = 10 * natOfString s + digitValue c"
  by (simp add: natOfString_def)

lemma natOfString_natToString: "natOfString (natToString n) = n"
proof (induction n rule: natToString.induct)
  case (1 n)
  show ?case
  proof (cases "n < 10")
    case True
    then show ?thesis
      by (subst natToString.simps) (simp add: natOfString_def digitValue_digitChar)
  next
    case False
    with "1.IH" show ?thesis
      by (subst natToString.simps) (simp add: natOfString_snoc digitValue_digitChar)
  qed
qed

lemma natOfString_zeros: "natOfString (replicate z (CHR ''0'') @ s) = natOfString s"
proof -
  have "foldl (\<lambda>acc c. 10 * acc + digitValue c) 0 (replicate z (CHR ''0'')) = 0"
    by (induction z) (simp_all add: digitValue_def)
  then show ?thesis by (simp add: natOfString_def)
qed

lemma filter_digits: "list_all isDigit s \<Longrightarrow> filter isDigit s = s"
  by (simp add: list_all_iff)

lemma toFixed6_value:
  assumes "\<bar>v\<bar> < 10 ^ 21"
  shows "\<bar>fixed6Value (toFixed6 nts v) - v\<bar> \<le> 1 / (2 * 10 ^ 6)"
proof -
  define n where "n = nat \<lfloor>\<bar>v\<bar> * 10 ^ 6 + 1 / 2\<rfloor>"
  define m where "m = natToString n"
  define m' where "m' = (if length m \<le> 6 then replicate (7 - length m) (CHR ''0'') @ m else m)"
  define k where "k = length m'"
  have md: "list_all isDigit m" using natToString_digits [of n] by (simp add: m_def)
  have z: "isDigit (CHR ''0'')" by (simp add: isDigit_def)
  have m'd: "list_all isDigit m'"
    using md z by (simp add: m'_def list_all_iff)
  have k7: "7 \<le> k" by (simp add: k_def m'_def)
  have val: "natOfString m' = n"
    by (simp add: m'_def natOfString_zeros m_def natOfString_natToString)
  have tf: "toFixed6 nts v
              = (if v < 0 then ''-'' else '''') @ take (k - 6) m' @ ''.'' @ drop (k - 6) m'"
    using assms by (simp add: toFixed6_def Let_def n_def m_def m'_def k_def)
  have nd: "\<not> isDigit (CHR ''.'')" by (simp add: isDigit_def)
  have td: "list_all isDigit (take (k - 6) m')" "list_all isDigit (drop (k - 6) m')"
    using m'd by (auto simp: list_all_iff dest: in_set_takeD in_set_dropD)
  have digits: "filter isDigit (take (k - 6) m' @ ''.'' @ drop (k - 6) m') = m'"
    using td nd by (simp add: filter_digits)
  obtain c cs where c: "take (k - 6) m' = c # cs"
    using k7 by (cases "take (k - 6) m'") (auto simp: k_def)
  have cd: "c \<noteq> CHR ''-''" using td(1) c by (auto simp: isDigit_def)
  have fv: "fixed6Value (toFixed6 nts v) = (if v < 0 then - (of_nat n / 10 ^ 6) else of_nat n / 10 ^ 6)"
  proof (cases "v < 0")
    case True
    then show ?thesis
      using digits val by (simp add: tf fixed6Value_def)
  next
    case False
    have "fixed6Value ((c # cs) @ ''.'' @ drop (k - 6) m')
            = of_nat (natOfString (filter isDigit ((c # cs) @ ''.'' @ drop (k - 6) m'))) / 10 ^ 6"
      using cd by (simp add: fixed6Value_def)
    then show ?thesis
      using False digits val by (simp add: tf c [symmetric])
  qed
  have "0 \<le> \<bar>v\<bar> * 10 ^ 6 + 1 / 2" by simp
  then have "0 \<le> \<lfloor>\<bar>v\<bar> * 10 ^ 6 + 1 / 2\<rfloor>" by simp
  then have nr: "real n = of_int \<lfloor>\<bar>v\<bar> * 10 ^ 6 + 1 / 2\<rfloor>" by (simp add: n_def)
  have "of_int \<lfloor>\<bar>v\<bar> * 10 ^ 6 + 1 / 2\<rfloor> \<le> \<bar>v\<bar> * 10 ^ 6 + 1 / 2"
       "\<bar>v\<bar> * 10 ^ 6 + 1 / 2 < of_int \<lfloor>\<bar>v\<bar> * 10 ^ 6 + 1 / 2\<rfloor> + 1"
    by linarith+
  then have "\<bar>real n - \<bar>v\<bar> * 10 ^ 6\<bar> \<le> 1 / 2" unfolding nr by linarith
  then have "\<bar>real n - \<bar>v\<bar> * 10 ^ 6\<bar> / 10 ^ 6 \<le> (1 / 2) / 10 ^ 6"
    by (intro divide_right_mono) simp_all
  moreover have "real n / 10 ^ 6 - \<bar>v\<bar> = (real n - \<bar>v\<bar> * 10 ^ 6) / 10 ^ 6"
    by (simp add: field_simps)
  then have "\<bar>real n / 10 ^ 6 - \<bar>v\<bar>\<bar> = \<bar>real n - \<bar>v\<bar> * 10 ^ 6\<bar> / 10 ^ 6"
    by (simp only: abs_divide) simp
  ultimately have b: "\<bar>real n / 10 ^ 6 - \<bar>v\<bar>\<bar> \<le> 1 / (2 * 10 ^ 6)"
    by simp
  show ?thesis
  proof (cases "v < 0")
    case True
    then have "fixed6Value (toFixed6 nts v) - v = - (real n / 10 ^ 6 - \<bar>v\<bar>)"
      by (simp add: fv)
    then have "\<bar>fixed6Value (toFixed6 nts v) - v\<bar> = \<bar>real n / 10 ^ 6 - \<bar>v\<bar>\<bar>"
      by (simp only: abs_minus_cancel)
    with b show ?thesis by (simp only:)
  next
    case False
    then have "fixed6Value (toFixed6 nts v) - v = real n / 10 ^ 6 - \<bar>v\<bar>"
      by (simp add: fv)
    with b show ?thesis by (simp only:)
  qed
qed

lemma join_append:
  "join sep (xs @ ys)
     = (if xs = [] then join sep ys else if ys = [] then join sep xs
        else join sep xs @ sep @ join sep ys)"
proof (induction sep xs rule: join.induct)
  case (1 sep)
  then show ?case by simp
next
  case (2 sep l)
  then show ?case by (cases ys) simp_all
next
  case (3 sep l m ls)
  then show ?case by simp
qed

lemma annotationLine_missing:
  "\<not> hasLabel (labelId a) ls \<Longrightarrow> annotationLine nts ls a = ''''"
  using findIndex_missing [of "\<lambda>l. label_id l = labelId a" ls]
  by (simp add: annotationLine_def hasLabel_def)

lemma annotationLine_found:
  assumes "hasLabel (labelId a) ls"
  shows "\<exists>i. i < length ls \<and> label_id (ls ! i) = labelId a
             \<and> (\<forall>j<i. label_id (ls ! j) \<noteq> labelId a)
             \<and> annotationLine nts ls a
                 = natToString i @ '' '' @ toFixed6 nts (box_x a) @ '' '' @ toFixed6 nts (box_y a)
                   @ '' '' @ toFixed6 nts (box_w a) @ '' '' @ toFixed6 nts (box_h a)"
proof -
  from findIndex_found [of "\<lambda>l. label_id l = labelId a" ls] assms obtain i where
    i: "findIndex (\<lambda>l. label_id l = labelId a) ls = int i" "i < length ls"
       "label_id (ls ! i) = labelId a" "\<forall>j<i. label_id (ls ! j) \<noteq> labelId a"
    by (auto simp: hasLabel_def)
  have "annotationLine nts ls a
          = natToString i @ '' '' @ toFixed6 nts (box_x a) @ '' '' @ toFixed6 nts (box_y a)
            @ '' '' @ toFixed6 nts (box_w a) @ '' '' @ toFixed6 nts (box_h a)"
    by (simp add: annotationLine_def i(1) intToString_def)
  with i show ?thesis by blast
qed

lemma annotationLine_no_newline:
  assumes "\<not> hasLabel (labelId a) ls \<or> fixedNotation a"
  shows "CHR 0x0A \<notin> set (annotationLine nts ls a)"
proof (cases "hasLabel (labelId a) ls")
  case False
  then show ?thesis by (simp add: annotationLine_missing)
next
  case True
  with assms have f: "\<bar>box_x a\<bar> < 10 ^ 21" "\<bar>box_y a\<bar> < 10 ^ 21" "\<bar>box_w a\<bar> < 10 ^ 21"
    "\<bar>box_h a\<bar> < 10 ^ 21"
    by (simp_all add: fixedNotation_def)
  from annotationLine_found [OF True, of nts] obtain i where
    l: "annotationLine nts ls a
          = natToString i @ '' '' @ toFixed6 nts (box_x a) @ '' '' @ toFixed6 nts (box_y a)
            @ '' '' @ toFixed6 nts (box_w a) @ '' '' @ toFixed6 nts (box_h a)"
    by blast
  have "CHR 0x0A \<notin> set (natToString i)"
    using natToString_digits [of i] isDigit_chars by (auto simp: list_all_iff)
  then show ?thesis
    using toFixed6_chars [OF f(1), of nts] toFixed6_chars [OF f(2), of nts]
          toFixed6_chars [OF f(3), of nts] toFixed6_chars [OF f(4), of nts]
    by (simp add: l)
qed

lemma export_lines:
  assumes "anns \<noteq> []"
      and "\<forall>a\<in>set anns. \<not> hasLabel (labelId a) ls \<or> fixedNotation a"
  shows "splitOn (CHR 0x0A) (generateYoloAnnotation nts anns ls) = map (annotationLine nts ls) anns"
  unfolding generateYoloAnnotation_def
  using assms by (intro splitOn_join) (auto simp: annotationLine_no_newline)

text \<open>
  Claim C9, amended. For every annotation list in which each annotation's \<open>labelId\<close> occurs
  in the label list and each coordinate has a magnitude below \<open>10^21\<close>: the exported text
  is empty for an empty list, and otherwise consists of one line per annotation, the lines
  separated by single newline characters and nothing else appended; each line is
  \<open><classIndex> <x> <y> <w> <h>\<close> with single spaces, where \<open>classIndex\<close> is the zero-based
  position of the first label of the label list whose id is the annotation's \<open>labelId\<close>,
  and \<open>x\<close>, \<open>y\<close>, \<open>w\<close>, \<open>h\<close> are printed with exactly 6 decimal places, each print
  denoting a number within \<open>0.0000005\<close> of the coordinate.
\<close>

theorem export_format:
  assumes "list_all (\<lambda>a. hasLabel (labelId a) ls) anns"
      and "list_all fixedNotation anns"
  shows "(anns = [] \<longrightarrow> generateYoloAnnotation nts anns ls = '''')
       \<and> (anns \<noteq> [] \<longrightarrow>
            splitOn (CHR 0x0A) (generateYoloAnnotation nts anns ls)
              = map (annotationLine nts ls) anns)
       \<and> (\<forall>a\<in>set anns. \<exists>i.
             i < length ls \<and> label_id (ls ! i) = labelId a
           \<and> (\<forall>j<i. label_id (ls ! j) \<noteq> labelId a)
           \<and> annotationLine nts ls a
               = natToString i @ '' '' @ toFixed6 nts (box_x a) @ '' '' @ toFixed6 nts (box_y a)
                 @ '' '' @ toFixed6 nts (box_w a) @ '' '' @ toFixed6 nts (box_h a)
           \<and> isFixed6 (toFixed6 nts (box_x a)) \<and> isFixed6 (toFixed6 nts (box_y a))
           \<and> isFixed6 (toFixed6 nts (box_w a)) \<and> isFixed6 (toFixed6 nts (box_h a))
           \<and> \<bar>fixed6Value (toFixed6 nts (box_x a)) - box_x a\<bar> \<le> 1 / (2 * 10 ^ 6)
           \<and> \<bar>fixed6Value (toFixed6 nts (box_y a)) - box_y a\<bar> \<le> 1 / (2 * 10 ^ 6)
           \<and> \<bar>fixed6Value (toFixed6 nts (box_w a)) - box_w a\<bar> \<le> 1 / (2 * 10 ^ 6)
           \<and> \<bar>fixed6Value (toFixed6 nts (box_h a)) - box_h a\<bar> \<le> 1 / (2 * 10 ^ 6))"
proof (intro conjI impI ballI)
  assume "anns = []"
  then show "generateYoloAnnotation nts anns ls = ''''"
    by (simp add: generateYoloAnnotation_def)
next
  assume "anns \<noteq> []"
  then show "splitOn (CHR 0x0A) (generateYoloAnnotation nts anns ls)
               = map (annotationLine nts ls) anns"
    using assms(2) by (intro export_lines) (auto simp: list_all_iff)
next
  fix a assume a: "a \<in> set anns"
  then have h: "hasLabel (labelId a) ls" and f: "fixedNotation a"
    using assms by (auto simp: list_all_iff)
  from f have s: "\<bar>box_x a\<bar> < 10 ^ 21" "\<bar>box_y a\<bar> < 10 ^ 21" "\<bar>box_w a\<bar> < 10 ^ 21"
    "\<bar>box_h a\<bar> < 10 ^ 21"
    by (simp_all add: fixedNotation_def)
  show "\<exists>i. i < length ls \<and> label_id (ls ! i) = labelId a
           \<and> (\<forall>j<i. label_id (ls ! j) \<noteq> labelId a)
           \<and> annotationLine nts ls a
               = natToString i @ '' '' @ toFixed6 nts (box_x a) @ '' '' @ toFixed6 nts (box_y a)
                 @ '' '' @ toFixed6 nts (box_w a) @ '' '' @ toFixed6 nts (box_h a)
           \<and> isFixed6 (toFixed6 nts (box_x a)) \<and> isFixed6 (toFixed6 nts (box_y a))
           \<and> isFixed6 (toFixed6 nts (box_w a)) \<and> isFixed6 (toFixed6 nts (box_h a))
           \<and> \<bar>fixed6Value (toFixed6 nts (box_x a)) - box_x a\<bar> \<le> 1 / (2 * 10 ^ 6)
           \<and> \<bar>fixed6Value (toFixed6 nts (box_y a)) - box_y a\<bar> \<le> 1 / (2 * 10 ^ 6)
           \<and> \<bar>fixed6Value (toFixed6 nts (box_w a)) - box_w a\<bar> \<le> 1 / (2 * 10 ^ 6)
           \<and> \<bar>fixed6Value (toFixed6 nts (box_h a)) - box_h a\<bar> \<le> 1 / (2 * 10 ^ 6)"
    using annotationLine_found [OF h, of nts] toFixed6_isFixed6 [OF s(1), of nts]
      toFixed6_isFixed6 [OF s(2), of nts] toFixed6_isFixed6 [OF s(3), of nts]
      toFixed6_isFixed6 [OF s(4), of nts] toFixed6_value [OF s(1), of nts]
      toFixed6_value [OF s(2), of nts] toFixed6_value [OF s(3), of nts]
      toFixed6_value [OF s(4), of nts]
    by blast
qed

text \<open>
  Claim C10. An annotation whose \<open>labelId\<close> does not occur in the label list is not
  dropped: its line is the empty string and is joined with newlines like any other line, so
  the exported text has an empty line at its position, and is the empty string when it is the
  only annotation.
\<close>

theorem missing_label_gives_empty_line:
  assumes "\<not> hasLabel (labelId a) ls"
  shows "annotationLine nts ls a = ''''
       \<and> generateYoloAnnotation nts [a] ls = ''''
       \<and> generateYoloAnnotation nts (pre @ a # post) ls
           = (if pre = [] then '''' else generateYoloAnnotation nts pre ls @ [CHR 0x0A])
             @ (if post = [] then '''' else [CHR 0x0A] @ generateYoloAnnotation nts post ls)
       \<and> (list_all fixedNotation (pre @ post) \<longrightarrow>
            splitOn (CHR 0x0A) (generateYoloAnnotation nts (pre @ a # post) ls)
              = map (annotationLine nts ls) pre @ [''''] @ map (annotationLine nts ls) post)"
proof (intro conjI impI)
  show e: "annotationLine nts ls a = ''''" by (rule annotationLine_missing [OF assms])
  show "generateYoloAnnotation nts [a] ls = ''''"
    by (simp add: generateYoloAnnotation_def e)
  have j: "join [CHR 0x0A] ('''' # xs) = (if xs = [] then '''' else [CHR 0x0A] @ join [CHR 0x0A] xs)"
    for xs by (cases xs) simp_all
  show "generateYoloAnnotation nts (pre @ a # post) ls
           = (if pre = [] then '''' else generateYoloAnnotation nts pre ls @ [CHR 0x0A])
             @ (if post = [] then '''' else [CHR 0x0A] @ generateYoloAnnotation nts post ls)"
    by (simp add: generateYoloAnnotation_def join_append e j)
  assume "list_all fixedNotation (pre @ post)"
  then have "\<forall>b\<in>set (pre @ a # post). \<not> hasLabel (labelId b) ls \<or> fixedNotation b"
    using assms by (auto simp: list_all_iff)
  then have "splitOn (CHR 0x0A) (generateYoloAnnotation nts (pre @ a # post) ls)
               = map (annotationLine nts ls) (pre @ a # post)"
    by (intro export_lines) simp_all
  then show "splitOn (CHR 0x0A) (generateYoloAnnotation nts (pre @ a # post) ls)
               = map (annotationLine nts ls) pre @ [''''] @ map (annotationLine nts ls) post"
    by (simp add: e)
qed

lemma natToString_examples:
  "natToString 0 = ''0''" "natToString (Suc 0) = ''1''"
  "natToString 500000 = ''500000''" "natToString 250000 = ''250000''"
  "natToString 100000 = ''100000''" "natToString 200000 = ''200000''"
  "natToString 50000 = ''50000''"
  by (simp_all add: natToString.simps digitChar_def)

lemma toFixed6_examples:
  "toFixed6 nts (1 / 2) = ''0.500000''" "toFixed6 nts (1 / 4) = ''0.250000''"
  "toFixed6 nts (1 / 10) = ''0.100000''" "toFixed6 nts (1 / 5) = ''0.200000''"
  "toFixed6 nts (1 / 20) = ''0.050000''"
  by (simp_all add: toFixed6_def natToString_examples)

lemma toFixed6_big: "toFixed6 exponent1e21 (10 ^ 21) = ''1e+21''"
  by (simp add: toFixed6_def exponent1e21_def)

lemma exportExample_text:
  "generateYoloAnnotation nts exportExample (labels exampleDataset)
     = ''0 0.500000 0.500000 0.250000 0.250000'' @ [CHR 0x0A]
       @ ''1 0.100000 0.200000 0.050000 0.050000''"
  by (simp add: generateYoloAnnotation_def annotationLine_def exportExample_def
        exampleDataset_def intToString_def toFixed6_examples natToString_examples)

text \<open>Claim C9, amended, at the export example of the specification.\<close>

theorem export_format_witness:
  "list_all (\<lambda>a. hasLabel (labelId a) (labels exampleDataset)) exportExample
   \<and> list_all fixedNotation exportExample
   \<and> exportExample \<noteq> []
   \<and> generateYoloAnnotation exponent1e21 exportExample (labels exampleDataset)
       = ''0 0.500000 0.500000 0.250000 0.250000'' @ [CHR 0x0A]
         @ ''1 0.100000 0.200000 0.050000 0.050000''
   \<and> splitOn (CHR 0x0A) (generateYoloAnnotation exponent1e21 exportExample (labels exampleDataset))
       = map (annotationLine exponent1e21 (labels exampleDataset)) exportExample
   \<and> isFixed6 ''0.500000''"
proof -
  have h: "list_all (\<lambda>a. hasLabel (labelId a) (labels exampleDataset)) exportExample"
    "list_all fixedNotation exportExample"
    by (simp_all add: exportExample_def exampleDataset_def hasLabel_def fixedNotation_def)
  have n: "exportExample \<noteq> []"
    "\<lparr>ann_id = ''e1'', labelId = ''A'', box_x = 1 / 2, box_y = 1 / 2, box_w = 1 / 4,
      box_h = 1 / 4\<rparr> \<in> set exportExample"
    by (simp_all add: exportExample_def)
  show ?thesis
    using export_format [OF h, of exponent1e21] h n exportExample_text [of exponent1e21]
    by (auto simp: toFixed6_examples)
qed

text \<open>
  Claim C9 says that every coordinate is printed with exactly 6 decimal places. An
  annotation with \<open>x = 10^21\<close> and a label of the list is exported with \<open>x\<close> in exponent
  notation: \<open>toFixed\<close> hands a magnitude of \<open>10^21\<close> or more to \<open>Number::toString\<close>.
\<close>

theorem export_format_counterexample:
  "hasLabel (labelId ((exampleAnnotation ''a1'' ''A'')\<lparr>box_x := 10 ^ 21\<rparr>)) (labels exampleDataset)
   \<and> generateYoloAnnotation exponent1e21 [(exampleAnnotation ''a1'' ''A'')\<lparr>box_x := 10 ^ 21\<rparr>]
         (labels exampleDataset)
       = ''0 1e+21 0.500000 0.250000 0.250000''
   \<and> toFixed6 exponent1e21 (10 ^ 21) = ''1e+21''
   \<and> \<not> isFixed6 (toFixed6 exponent1e21 (10 ^ 21))"
proof -
  have "\<not> isFixed6 ''1e+21''" by (simp add: isFixed6_def)
  then show ?thesis
    using toFixed6_big
    by (simp add: generateYoloAnnotation_def annotationLine_def exampleAnnotation_def
          exampleDataset_def hasLabel_def intToString_def toFixed6_examples
          natToString_examples)
qed

text \<open>Claim C10 at an annotation with the unknown label \<open>Z\<close> after the two annotations of the
  export example.\<close>

theorem missing_label_gives_empty_line_witness:
  "\<not> hasLabel (labelId (exampleAnnotation ''a9'' ''Z'')) (labels exampleDataset)
   \<and> annotationLine exponent1e21 (labels exampleDataset) (exampleAnnotation ''a9'' ''Z'') = []
   \<and> generateYoloAnnotation exponent1e21 [exampleAnnotation ''a9'' ''Z''] (labels exampleDataset) = []
   \<and> generateYoloAnnotation exponent1e21 (exportExample @ [exampleAnnotation ''a9'' ''Z''])
         (labels exampleDataset)
       = ''0 0.500000 0.500000 0.250000 0.250000'' @ [CHR 0x0A]
         @ ''1 0.100000 0.200000 0.050000 0.050000'' @ [CHR 0x0A]
   \<and> splitOn (CHR 0x0A)
         (generateYoloAnnotation exponent1e21 (exportExample @ [exampleAnnotation ''a9'' ''Z''])
            (labels exampleDataset))
       = [''0 0.500000 0.500000 0.250000 0.250000'', ''1 0.100000 0.200000 0.050000 0.050000'',
          []]"
proof -
  have h: "\<not> hasLabel (labelId (exampleAnnotation ''a9'' ''Z'')) (labels exampleDataset)"
    by (simp add: exampleAnnotation_def exampleDataset_def hasLabel_def)
  have f: "list_all fixedNotation (exportExample @ [])"
    by (simp add: exportExample_def fixedNotation_def)
  have n: "exportExample \<noteq> []" by (simp add: exportExample_def)
  have l: "map (annotationLine exponent1e21 (labels exampleDataset)) exportExample
             = [''0 0.500000 0.500000 0.250000 0.250000'',
                ''1 0.100000 0.200000 0.050000 0.050000'']"
    by (simp add: annotationLine_def exportExample_def exampleDataset_def intToString_def
          toFixed6_examples natToString_examples)
  show ?thesis
    using missing_label_gives_empty_line [OF h, of exponent1e21 exportExample "[]"] h f n l
      exportExample_text [of exponent1e21]
    by simp
qed

section \<open>The round trip in binary64 arithmetic\<close>

lemma roundTiesToEven_error: "\<bar>of_int (roundTiesToEven t) - t\<bar> \<le> 1 / 2"
proof -
  have "of_int \<lfloor>t\<rfloor> \<le> t" "t < of_int \<lfloor>t\<rfloor> + 1" by linarith+
  then show ?thesis
    by (auto simp: roundTiesToEven_def Let_def)
qed

lemma roundDouble_eval:
  assumes "q = 2 powr (of_int e - 52)"
      and "2 powr (of_int e) \<le> \<bar>r\<bar>" "\<bar>r\<bar> < 2 powr (of_int e + 1)"
  shows "roundDouble r = of_int (roundTiesToEven (r / q)) * q"
proof -
  have "(0::real) < 2 powr (of_int e)" by simp
  with assms(2) have pos: "0 < \<bar>r\<bar>" by linarith
  have "\<lfloor>log 2 \<bar>r\<bar>\<rfloor> = e"
    using floor_log_eq_powr_iff [of "\<bar>r\<bar>" 2 e] pos assms(2,3) by simp
  then show ?thesis
    using pos by (simp add: roundDouble_def Let_def assms(1))
qed

lemma roundDouble_error: "\<bar>roundDouble r - r\<bar> \<le> \<bar>r\<bar> / 2 ^ 53"
proof (cases "r = 0")
  case True
  then show ?thesis by (simp add: roundDouble_def)
next
  case False
  define e where "e = \<lfloor>log 2 \<bar>r\<bar>\<rfloor>"
  define q :: real where "q = 2 powr (of_int e - 52)"
  define k where "k = roundTiesToEven (r / q)"
  have pos: "0 < \<bar>r\<bar>" using False by simp
  have lo: "2 powr (of_int e) \<le> \<bar>r\<bar>"
    using floor_log_eq_powr_iff [of "\<bar>r\<bar>" 2 e] pos by (simp add: e_def)
  have q: "0 < q" by (simp add: q_def)
  have rd: "roundDouble r = of_int k * q"
    using False by (simp add: roundDouble_def Let_def e_def q_def k_def)
  have r: "r = (r / q) * q" using q by simp
  have "roundDouble r - r = of_int k * q - (r / q) * q"
    using rd r by simp
  also have "\<dots> = (of_int k - r / q) * q"
    by (simp only: left_diff_distrib)
  finally have "\<bar>roundDouble r - r\<bar> = \<bar>of_int k - r / q\<bar> * q"
    using q by (simp only: abs_mult abs_of_pos)
  also have "\<dots> \<le> (1 / 2) * q"
    using roundTiesToEven_error [of "r / q"] q unfolding k_def
    by (intro mult_right_mono) simp_all
  also have "(1 / 2) * q = 2 powr (of_int e) / 2 ^ 53"
  proof -
    have "q = 2 powr (of_int e) / 2 powr 52"
      unfolding q_def by (rule powr_diff)
    also have "(2::real) powr 52 = 2 ^ 52" by simp
    finally show ?thesis by simp
  qed
  also have "\<dots> \<le> \<bar>r\<bar> / 2 ^ 53"
    using lo by (rule divide_right_mono) simp
  finally show ?thesis .
qed

lemma powr_neg_values:
  "(2::real) powr (- 52) = 1 / 2 ^ 52" "(2::real) powr (- 53) = 1 / 2 ^ 53"
  "(2::real) powr (- 54) = 1 / 2 ^ 54" "(2::real) powr (- 122) = 1 / 2 ^ 122"
  "(2::real) powr (- 1) = 1 / 2" "(2::real) powr (- 2) = 1 / 2 ^ 2"
  "(2::real) powr (- 70) = 1 / 2 ^ 70" "(2::real) powr (- 69) = 1 / 2 ^ 69"
  by (simp_all add: powr_minus_divide)

lemma roundDouble_values:
  "roundDouble 0 = 0" "roundDouble 1 = 1" "roundDouble (1 / 2) = 1 / 2"
  "roundDouble twoToMinus70 = twoToMinus70" "roundDouble (twoToMinus70 - 1 / 2) = - 1 / 2"
proof -
  show "roundDouble 0 = 0" by (simp add: roundDouble_def)
  show "roundDouble 1 = 1"
    using roundDouble_eval [of "1 / 2 ^ 52" 0 1]
    by (simp add: roundTiesToEven_def powr_neg_values)
  show "roundDouble (1 / 2) = 1 / 2"
    using roundDouble_eval [of "1 / 2 ^ 53" "-1" "1 / 2"]
    by (simp add: roundTiesToEven_def powr_neg_values)
  show "roundDouble twoToMinus70 = twoToMinus70"
    using roundDouble_eval [of "1 / 2 ^ 122" "-70" "1 / 2 ^ 70"]
    by (simp add: roundTiesToEven_def powr_neg_values twoToMinus70_def)
  show "roundDouble (twoToMinus70 - 1 / 2) = - 1 / 2"
    using roundDouble_eval [of "1 / 2 ^ 54" "-2" "1 / 2 ^ 70 - 1 / 2"]
    by (simp add: roundTiesToEven_def powr_neg_values twoToMinus70_def)
qed

lemma roundDouble_magnitude: "\<bar>roundDouble r\<bar> \<le> 2 * \<bar>r\<bar>"
proof -
  have "\<bar>r\<bar> / 2 ^ 53 \<le> \<bar>r\<bar>" by (simp add: divide_le_eq)
  with roundDouble_error [of r] show ?thesis by linarith
qed

text \<open>The size goes through one multiplication and one division.\<close>

lemma size_chain:
  assumes "W \<noteq> 0"
  shows "\<bar>roundDouble (roundDouble (b * W) / W) - b\<bar> \<le> 3 * \<bar>b\<bar> / 2 ^ 53"
proof -
  define w1 where "w1 = roundDouble (b * W)"
  define Wa where "Wa = \<bar>W\<bar>"
  have Wa: "0 < Wa" using assms by (simp add: Wa_def)
  have e1: "\<bar>w1 - b * W\<bar> \<le> \<bar>b\<bar> * Wa / 2 ^ 53"
    using roundDouble_error [of "b * W"] by (simp add: w1_def Wa_def abs_mult)
  have m1: "\<bar>w1\<bar> \<le> 2 * (\<bar>b\<bar> * Wa)"
    using roundDouble_magnitude [of "b * W"] by (simp add: w1_def Wa_def abs_mult)
  have e2: "\<bar>roundDouble (w1 / W) - w1 / W\<bar> \<le> \<bar>w1\<bar> / Wa / 2 ^ 53"
    using roundDouble_error [of "w1 / W"] by (simp add: Wa_def)
  have "\<bar>w1\<bar> / Wa \<le> 2 * (\<bar>b\<bar> * Wa) / Wa"
    using m1 Wa by (intro divide_right_mono) simp_all
  then have m2: "\<bar>w1\<bar> / Wa \<le> 2 * \<bar>b\<bar>" using Wa by simp
  have "w1 / W - b = (w1 - b * W) / W" using assms by (simp add: field_simps)
  then have "\<bar>w1 / W - b\<bar> = \<bar>w1 - b * W\<bar> / Wa" by (simp add: Wa_def)
  also have "\<dots> \<le> (\<bar>b\<bar> * Wa / 2 ^ 53) / Wa"
    using e1 Wa by (intro divide_right_mono) simp_all
  also have "\<dots> = \<bar>b\<bar> / 2 ^ 53" using Wa by simp
  finally have e3: "\<bar>w1 / W - b\<bar> \<le> \<bar>b\<bar> / 2 ^ 53" .
  have "\<bar>w1\<bar> / Wa / 2 ^ 53 \<le> 2 * \<bar>b\<bar> / 2 ^ 53"
    using m2 by (intro divide_right_mono) simp_all
  with e2 e3 have "\<bar>roundDouble (w1 / W) - b\<bar> \<le> 3 * \<bar>b\<bar> / 2 ^ 53" by linarith
  then show ?thesis by (simp add: w1_def)
qed

text \<open>The centre goes through a subtraction of half the size and its addition back.\<close>

lemma centre_chain:
  assumes "W \<noteq> 0"
  shows "\<bar>roundDouble (roundDouble
            (roundDouble (roundDouble (c * W) - roundDouble (roundDouble (b * W) / 2))
             + roundDouble (roundDouble (b * W) / 2)) / W) - c\<bar>
         \<le> 15 * (\<bar>c\<bar> + \<bar>b\<bar>) / 2 ^ 53"
proof -
  define Wa where "Wa = \<bar>W\<bar>"
  define P where "P = \<bar>c\<bar> * Wa"
  define Q where "Q = \<bar>b\<bar> * Wa"
  define a where "a = roundDouble (c * W)"
  define w1 where "w1 = roundDouble (b * W)"
  define hw where "hw = roundDouble (w1 / 2)"
  define x1 where "x1 = roundDouble (a - hw)"
  define s where "s = roundDouble (x1 + hw)"
  define cx where "cx = roundDouble (s / W)"
  have Wa: "0 < Wa" using assms by (simp add: Wa_def)
  have PQ: "0 \<le> P" "0 \<le> Q" using Wa by (simp_all add: P_def Q_def)
  have e1: "\<bar>a - c * W\<bar> \<le> P / 2 ^ 53"
    using roundDouble_error [of "c * W"] by (simp add: a_def P_def Wa_def abs_mult)
  have ma: "\<bar>a\<bar> \<le> 2 * P"
    using roundDouble_magnitude [of "c * W"] by (simp add: a_def P_def Wa_def abs_mult)
  have mw: "\<bar>w1\<bar> \<le> 2 * Q"
    using roundDouble_magnitude [of "b * W"] by (simp add: w1_def Q_def Wa_def abs_mult)
  have mh: "\<bar>hw\<bar> \<le> 2 * Q"
    using roundDouble_magnitude [of "w1 / 2"] mw by (simp add: hw_def)
  have d4: "\<bar>a - hw\<bar> \<le> 2 * P + 2 * Q" using ma mh by linarith
  have e4: "\<bar>x1 - (a - hw)\<bar> \<le> \<bar>a - hw\<bar> / 2 ^ 53"
    using roundDouble_error [of "a - hw"] by (simp add: x1_def)
  have e4': "\<bar>x1 - (a - hw)\<bar> \<le> (2 * P + 2 * Q) / 2 ^ 53"
    using e4 d4 by (simp add: field_simps)
  have d5: "\<bar>x1 + hw\<bar> \<le> 4 * P + 2 * Q"
  proof -
    have "(2 * P + 2 * Q) / 2 ^ 53 \<le> 2 * P + 2 * Q" using PQ by (simp add: divide_le_eq)
    with e4' ma show ?thesis by linarith
  qed
  have e5: "\<bar>s - (x1 + hw)\<bar> \<le> \<bar>x1 + hw\<bar> / 2 ^ 53"
    using roundDouble_error [of "x1 + hw"] by (simp add: s_def)
  have e5': "\<bar>s - (x1 + hw)\<bar> \<le> (4 * P + 2 * Q) / 2 ^ 53"
    using e5 d5 by (simp add: field_simps)
  have ms: "\<bar>s\<bar> \<le> 8 * P + 4 * Q"
  proof -
    have "(4 * P + 2 * Q) / 2 ^ 53 \<le> 4 * P + 2 * Q" using PQ by (simp add: divide_le_eq)
    with e5' d5 show ?thesis by linarith
  qed
  have es: "\<bar>s - c * W\<bar> \<le> (7 * P + 4 * Q) / 2 ^ 53"
  proof -
    have "s - c * W = (s - (x1 + hw)) + (x1 - (a - hw)) + (a - c * W)" by simp
    then have "\<bar>s - c * W\<bar> \<le> \<bar>s - (x1 + hw)\<bar> + \<bar>x1 - (a - hw)\<bar> + \<bar>a - c * W\<bar>"
      by linarith
    also have "\<dots> \<le> (4 * P + 2 * Q) / 2 ^ 53 + (2 * P + 2 * Q) / 2 ^ 53 + P / 2 ^ 53"
      using e5' e4' e1 by linarith
    also have "\<dots> = (7 * P + 4 * Q) / 2 ^ 53" by (simp add: field_simps)
    finally show ?thesis .
  qed
  have e6: "\<bar>cx - s / W\<bar> \<le> \<bar>s\<bar> / Wa / 2 ^ 53"
    using roundDouble_error [of "s / W"] by (simp add: cx_def Wa_def)
  have "\<bar>s\<bar> / Wa \<le> (8 * P + 4 * Q) / Wa"
    using ms Wa by (intro divide_right_mono) simp_all
  also have "\<dots> = 8 * \<bar>c\<bar> + 4 * \<bar>b\<bar>"
    using Wa by (simp add: P_def Q_def field_simps)
  finally have "\<bar>s\<bar> / Wa / 2 ^ 53 \<le> (8 * \<bar>c\<bar> + 4 * \<bar>b\<bar>) / 2 ^ 53"
    by (intro divide_right_mono) simp_all
  with e6 have e6': "\<bar>cx - s / W\<bar> \<le> (8 * \<bar>c\<bar> + 4 * \<bar>b\<bar>) / 2 ^ 53" by linarith
  have "s / W - c = (s - c * W) / W" using assms by (simp add: field_simps)
  then have "\<bar>s / W - c\<bar> = \<bar>s - c * W\<bar> / Wa" by (simp add: Wa_def)
  also have "\<dots> \<le> ((7 * P + 4 * Q) / 2 ^ 53) / Wa"
    using es Wa by (intro divide_right_mono) simp_all
  also have "\<dots> = (7 * \<bar>c\<bar> + 4 * \<bar>b\<bar>) / 2 ^ 53"
    using Wa by (simp add: P_def Q_def field_simps)
  finally have e7: "\<bar>s / W - c\<bar> \<le> (7 * \<bar>c\<bar> + 4 * \<bar>b\<bar>) / 2 ^ 53" .
  have "\<bar>cx - c\<bar> \<le> \<bar>cx - s / W\<bar> + \<bar>s / W - c\<bar>" by linarith
  also have "\<dots> \<le> (8 * \<bar>c\<bar> + 4 * \<bar>b\<bar>) / 2 ^ 53 + (7 * \<bar>c\<bar> + 4 * \<bar>b\<bar>) / 2 ^ 53"
    using e6' e7 by linarith
  also have "\<dots> \<le> 15 * (\<bar>c\<bar> + \<bar>b\<bar>) / 2 ^ 53"
    by (simp add: field_simps)
  finally show ?thesis
    by (simp add: cx_def s_def x1_def hw_def w1_def a_def)
qed

lemma roundTrip_double_fields:
  "yolo_w (roundTrip_double bbox W H) = roundDouble (roundDouble (box_w bbox * W) / W)"
  "yolo_h (roundTrip_double bbox W H) = roundDouble (roundDouble (box_h bbox * H) / H)"
  "yolo_x (roundTrip_double bbox W H)
     = roundDouble (roundDouble
         (roundDouble (roundDouble (box_x bbox * W) - roundDouble (roundDouble (box_w bbox * W) / 2))
          + roundDouble (roundDouble (box_w bbox * W) / 2)) / W)"
  "yolo_y (roundTrip_double bbox W H)
     = roundDouble (roundDouble
         (roundDouble (roundDouble (box_y bbox * H) - roundDouble (roundDouble (box_h bbox * H) / 2))
          + roundDouble (roundDouble (box_h bbox * H) / 2)) / H)"
  by (simp_all add: roundTrip_double_def yoloToSvg_double_def svgToYolo_double_def Let_def)

text \<open>
  Claim C1 says that in floating point the round trip reproduces \<open>x\<close>, \<open>y\<close>, \<open>w\<close>, \<open>h\<close>
  within a relative tolerance of \<open>1e-9\<close> for every box with \<open>w > 0\<close> and \<open>h > 0\<close>. For
  the box with \<open>x = 2^-70\<close>, \<open>w = 1\<close> on an image of width 1, \<open>x * W - w / 2\<close> rounds to
  \<open>-0.5\<close> and the round trip returns \<open>x = 0\<close>: the relative error is 1.
\<close>

theorem roundTrip_double_counterexample:
  "0 < box_w cancellationExample \<and> 0 < box_h cancellationExample
   \<and> roundTrip_double cancellationExample 1 1
       = \<lparr>yolo_x = 0, yolo_y = 1 / 2, yolo_w = 1, yolo_h = 1\<rparr>
   \<and> box_x cancellationExample = 1 / 2 ^ 70
   \<and> \<not> \<bar>yolo_x (roundTrip_double cancellationExample 1 1) - box_x cancellationExample\<bar>
         \<le> max \<bar>yolo_x (roundTrip_double cancellationExample 1 1)\<bar> \<bar>box_x cancellationExample\<bar>
            / 10 ^ 9"
proof -
  have r: "roundTrip_double cancellationExample 1 1
             = \<lparr>yolo_x = 0, yolo_y = 1 / 2, yolo_w = 1, yolo_h = 1\<rparr>"
    by (simp add: roundTrip_double_def yoloToSvg_double_def svgToYolo_double_def Let_def
          cancellationExample_def roundDouble_values)
  show ?thesis
    unfolding r by (simp add: cancellationExample_def twoToMinus70_def)
qed

text \<open>
  Claim C1, amended. For every box and every image size \<open>W > 0\<close>, \<open>H > 0\<close>, the round
  trip reproduces \<open>x\<close>, \<open>y\<close>, \<open>w\<close>, \<open>h\<close> exactly in real arithmetic. In binary64
  arithmetic (values in the normal range) it reproduces \<open>w\<close> and \<open>h\<close> within a relative
  tolerance of \<open>1e-9\<close>, and \<open>x\<close> and \<open>y\<close> within \<open>1e-9 * (|x| + |w|)\<close> and
  \<open>1e-9 * (|y| + |h|)\<close>.
\<close>

theorem roundTrip_law:
  assumes "imgWidth > 0" "imgHeight > 0"
  shows "roundTrip bbox imgWidth imgHeight
           = \<lparr>yolo_x = box_x bbox, yolo_y = box_y bbox, yolo_w = box_w bbox, yolo_h = box_h bbox\<rparr>
       \<and> \<bar>yolo_w (roundTrip_double bbox imgWidth imgHeight) - box_w bbox\<bar>
           \<le> \<bar>box_w bbox\<bar> / 10 ^ 9
       \<and> \<bar>yolo_h (roundTrip_double bbox imgWidth imgHeight) - box_h bbox\<bar>
           \<le> \<bar>box_h bbox\<bar> / 10 ^ 9
       \<and> \<bar>yolo_x (roundTrip_double bbox imgWidth imgHeight) - box_x bbox\<bar>
           \<le> (\<bar>box_x bbox\<bar> + \<bar>box_w bbox\<bar>) / 10 ^ 9
       \<and> \<bar>yolo_y (roundTrip_double bbox imgWidth imgHeight) - box_y bbox\<bar>
           \<le> (\<bar>box_y bbox\<bar> + \<bar>box_h bbox\<bar>) / 10 ^ 9"
proof -
  have nz: "imgWidth \<noteq> 0" "imgHeight \<noteq> 0" using assms by simp_all
  have small: "3 * t / 2 ^ 53 \<le> t / 10 ^ 9" "15 * t / 2 ^ 53 \<le> t / 10 ^ 9" if "0 \<le> t" for t :: real
    using that by (simp_all add: field_simps)
  have w: "\<bar>yolo_w (roundTrip_double bbox imgWidth imgHeight) - box_w bbox\<bar>
             \<le> \<bar>box_w bbox\<bar> / 10 ^ 9"
    using size_chain [OF nz(1), of "box_w bbox"] small(1) [of "\<bar>box_w bbox\<bar>"]
    by (simp add: roundTrip_double_fields)
  have h: "\<bar>yolo_h (roundTrip_double bbox imgWidth imgHeight) - box_h bbox\<bar>
             \<le> \<bar>box_h bbox\<bar> / 10 ^ 9"
    using size_chain [OF nz(2), of "box_h bbox"] small(1) [of "\<bar>box_h bbox\<bar>"]
    by (simp add: roundTrip_double_fields)
  have x: "\<bar>yolo_x (roundTrip_double bbox imgWidth imgHeight) - box_x bbox\<bar>
             \<le> (\<bar>box_x bbox\<bar> + \<bar>box_w bbox\<bar>) / 10 ^ 9"
    using centre_chain [OF nz(1), of "box_x bbox" "box_w bbox"]
          small(2) [of "\<bar>box_x bbox\<bar> + \<bar>box_w bbox\<bar>"]
    by (simp add: roundTrip_double_fields)
  have y: "\<bar>yolo_y (roundTrip_double bbox imgWidth imgHeight) - box_y bbox\<bar>
             \<le> (\<bar>box_y bbox\<bar> + \<bar>box_h bbox\<bar>) / 10 ^ 9"
    using centre_chain [OF nz(2), of "box_y bbox" "box_h bbox"]
          small(2) [of "\<bar>box_y bbox\<bar> + \<bar>box_h bbox\<bar>"]
    by (simp add: roundTrip_double_fields)
  show ?thesis
    using roundTrip_exact [OF nz] w h x y by simp
qed

text \<open>Claim C1, amended, at the box \<open>(0.5, 0.5, 0.25, 0.25)\<close> on a 640 by 480 image.\<close>

theorem roundTrip_law_witness:
  "(0::real) < 640 \<and> (0::real) < 480
   \<and> roundTrip (exampleAnnotation ''a1'' ''0'') 640 480
       = \<lparr>yolo_x = 1 / 2, yolo_y = 1 / 2, yolo_w = 1 / 4, yolo_h = 1 / 4\<rparr>
   \<and> \<bar>yolo_w (roundTrip_double (exampleAnnotation ''a1'' ''0'') 640 480) - 1 / 4\<bar>
       \<le> (1 / 4) / 10 ^ 9
   \<and> \<bar>yolo_x (roundTrip_double (exampleAnnotation ''a1'' ''0'') 640 480) - 1 / 2\<bar>
       \<le> (1 / 2 + 1 / 4) / 10 ^ 9"
  using roundTrip_law [of 640 480 "exampleAnnotation ''a1'' ''0''"]
  by (simp add: exampleAnnotation_def)

section \<open>The resize gesture in binary64 arithmetic\<close>

lemma roundDouble_resize_values:
  "roundDouble 400 = 400" "roundDouble 301 = 301" "roundDouble 160 = 160"
  "roundDouble 120 = 120" "roundDouble 320 = 320" "roundDouble 240 = 240"
  "roundDouble 80 = 80" "roundDouble 60 = 60" "roundDouble 180 = 180"
  "roundDouble 121 = 121" "roundDouble (121 / 2) = 121 / 2" "roundDouble (481 / 2) = 481 / 2"
  "roundDouble (1 / 4) = 1 / 4"
  "roundDouble (481 / 960) = 4512982126594185 / 9007199254740992"
  "roundDouble (121 / 480) = 2270564812132625 / 9007199254740992"
  "roundDouble (34058472181989375 / 281474976710656) = 121"
  "roundDouble (67694731898912775 / 281474976710656) = 8461841487364097 / 35184372088832"
  "roundDouble (6333186975989761 / 35184372088832) = 6333186975989761 / 35184372088832"
proof -
  show "roundDouble 400 = 400"
    using roundDouble_eval [of "1 / 2 ^ 44" 8 400]
    by (simp add: roundTiesToEven_def powr_minus_divide)
  show "roundDouble 301 = 301"
    using roundDouble_eval [of "1 / 2 ^ 44" 8 301]
    by (simp add: roundTiesToEven_def powr_minus_divide)
  show "roundDouble 160 = 160"
    using roundDouble_eval [of "1 / 2 ^ 45" 7 160]
    by (simp add: roundTiesToEven_def powr_minus_divide)
  show "roundDouble 120 = 120"
    using roundDouble_eval [of "1 / 2 ^ 46" 6 120]
    by (simp add: roundTiesToEven_def powr_minus_divide)
  show "roundDouble 320 = 320"
    using roundDouble_eval [of "1 / 2 ^ 44" 8 320]
    by (simp add: roundTiesToEven_def powr_minus_divide)
  show "roundDouble 240 = 240"
    using roundDouble_eval [of "1 / 2 ^ 45" 7 240]
    by (simp add: roundTiesToEven_def powr_minus_divide)
  show "roundDouble 80 = 80"
    using roundDouble_eval [of "1 / 2 ^ 46" 6 80]
    by (simp add: roundTiesToEven_def powr_minus_divide)
  show "roundDouble 60 = 60"
    using roundDouble_eval [of "1 / 2 ^ 47" 5 60]
    by (simp add: roundTiesToEven_def powr_minus_divide)
  show "roundDouble 180 = 180"
    using roundDouble_eval [of "1 / 2 ^ 45" 7 180]
    by (simp add: roundTiesToEven_def powr_minus_divide)
  show "roundDouble 121 = 121"
    using roundDouble_eval [of "1 / 2 ^ 46" 6 121]
    by (simp add: roundTiesToEven_def powr_minus_divide)
  show "roundDouble (121 / 2) = 121 / 2"
    using roundDouble_eval [of "1 / 2 ^ 47" 5 "121 / 2"]
    by (simp add: roundTiesToEven_def powr_minus_divide)
  show "roundDouble (481 / 2) = 481 / 2"
    using roundDouble_eval [of "1 / 2 ^ 45" 7 "481 / 2"]
    by (simp add: roundTiesToEven_def powr_minus_divide)
  show "roundDouble (1 / 4) = 1 / 4"
    using roundDouble_eval [of "1 / 2 ^ 54" "-2" "1 / 4"]
    by (simp add: roundTiesToEven_def powr_minus_divide)
  show "roundDouble (481 / 960) = 4512982126594185 / 9007199254740992"
    using roundDouble_eval [of "1 / 2 ^ 53" "-1" "481 / 960"]
    by (simp add: roundTiesToEven_def powr_minus_divide)
  show "roundDouble (121 / 480) = 2270564812132625 / 9007199254740992"
    using roundDouble_eval [of "1 / 2 ^ 54" "-2" "121 / 480"]
    by (simp add: roundTiesToEven_def powr_minus_divide)
  show "roundDouble (34058472181989375 / 281474976710656) = 121"
    using roundDouble_eval [of "1 / 2 ^ 46" 6 "34058472181989375 / 281474976710656"]
    by (simp add: roundTiesToEven_def powr_minus_divide)
  show "roundDouble (67694731898912775 / 281474976710656) = 8461841487364097 / 35184372088832"
    using roundDouble_eval [of "1 / 2 ^ 45" 7 "67694731898912775 / 281474976710656"]
    by (simp add: roundTiesToEven_def powr_minus_divide)
  show "roundDouble (6333186975989761 / 35184372088832) = 6333186975989761 / 35184372088832"
    using roundDouble_eval [of "1 / 2 ^ 45" 7 "6333186975989761 / 35184372088832"]
    by (simp add: roundTiesToEven_def powr_minus_divide)
qed

lemma roundDouble_lower: "\<bar>r\<bar> \<le> 2 * \<bar>roundDouble r\<bar>"
proof -
  have "\<bar>r\<bar> / 2 ^ 53 \<le> \<bar>r\<bar> / 2" by (intro divide_left_mono) simp_all
  with roundDouble_error [of r] show ?thesis by linarith
qed

text \<open>Storing a size and reading it back: a division and a multiplication.\<close>

lemma size_back:
  assumes "W \<noteq> 0"
  shows "\<bar>roundDouble (roundDouble (b / W) * W) - b\<bar> \<le> 3 * \<bar>b\<bar> / 2 ^ 53"
proof -
  define nw where "nw = roundDouble (b / W)"
  define Wa where "Wa = \<bar>W\<bar>"
  have Wa: "0 < Wa" using assms by (simp add: Wa_def)
  have e1: "\<bar>nw - b / W\<bar> \<le> \<bar>b\<bar> / Wa / 2 ^ 53"
    using roundDouble_error [of "b / W"] by (simp add: nw_def Wa_def)
  have "nw * W - b = (nw - b / W) * W" using assms by (simp add: field_simps)
  then have "\<bar>nw * W - b\<bar> = \<bar>nw - b / W\<bar> * Wa" by (simp add: abs_mult Wa_def)
  also have "\<dots> \<le> (\<bar>b\<bar> / Wa / 2 ^ 53) * Wa"
    using e1 Wa by (intro mult_right_mono) simp_all
  also have "\<dots> = \<bar>b\<bar> / 2 ^ 53" using Wa by simp
  finally have e2: "\<bar>nw * W - b\<bar> \<le> \<bar>b\<bar> / 2 ^ 53" .
  have "\<bar>b\<bar> / 2 ^ 53 \<le> \<bar>b\<bar>" by (simp add: divide_le_eq)
  with e2 have m: "\<bar>nw * W\<bar> \<le> 2 * \<bar>b\<bar>" by linarith
  have "\<bar>roundDouble (nw * W) - nw * W\<bar> \<le> \<bar>nw * W\<bar> / 2 ^ 53"
    by (rule roundDouble_error)
  also have "\<dots> \<le> 2 * \<bar>b\<bar> / 2 ^ 53"
    using m by (intro divide_right_mono) simp_all
  finally have e3: "\<bar>roundDouble (nw * W) - nw * W\<bar> \<le> 2 * \<bar>b\<bar> / 2 ^ 53" .
  from e2 e3 have "\<bar>roundDouble (nw * W) - b\<bar> \<le> 3 * \<bar>b\<bar> / 2 ^ 53" by linarith
  then show ?thesis by (simp add: nw_def)
qed

text \<open>Storing a left edge and reading it back: half the size is added, the centre is
  divided and multiplied by the image size, and half the reloaded size is subtracted.\<close>

lemma edge_back:
  assumes "W \<noteq> 0"
  shows "\<bar>roundDouble
            (roundDouble (roundDouble (roundDouble (a + roundDouble (b / 2)) / W) * W)
             - roundDouble (roundDouble (roundDouble (b / W) * W) / 2)) - a\<bar>
         \<le> 25 * (\<bar>a\<bar> + \<bar>b\<bar>) / 2 ^ 53"
proof -
  define Wa where "Wa = \<bar>W\<bar>"
  define M where "M = \<bar>a\<bar> + \<bar>b\<bar>"
  define hb where "hb = roundDouble (b / 2)"
  define s where "s = roundDouble (a + hb)"
  define cx where "cx = roundDouble (s / W)"
  define p where "p = roundDouble (cx * W)"
  define w' where "w' = roundDouble (roundDouble (b / W) * W)"
  define hw where "hw = roundDouble (w' / 2)"
  define x' where "x' = roundDouble (p - hw)"
  have Wa: "0 < Wa" using assms by (simp add: Wa_def)
  have M: "0 \<le> M" "\<bar>a\<bar> \<le> M" "\<bar>b\<bar> \<le> M" by (simp_all add: M_def)
  have small: "t / 2 ^ 53 \<le> t" if "0 \<le> t" for t :: real
    using that by (simp add: divide_le_eq)
  \<comment> \<open>half the size\<close>
  have ehb: "\<bar>hb - b / 2\<bar> \<le> M / 2 ^ 53"
  proof -
    have "\<bar>hb - b / 2\<bar> \<le> \<bar>b / 2\<bar> / 2 ^ 53"
      unfolding hb_def by (rule roundDouble_error)
    also have "\<dots> \<le> M / 2 ^ 53" using M by (intro divide_right_mono) simp_all
    finally show ?thesis .
  qed
  have mhb: "\<bar>hb\<bar> \<le> \<bar>b\<bar>"
    using roundDouble_magnitude [of "b / 2"] by (simp add: hb_def)
  \<comment> \<open>the sum\<close>
  have ds: "\<bar>a + hb\<bar> \<le> M" using mhb unfolding M_def by linarith
  have es: "\<bar>s - (a + hb)\<bar> \<le> M / 2 ^ 53"
  proof -
    have "\<bar>s - (a + hb)\<bar> \<le> \<bar>a + hb\<bar> / 2 ^ 53"
      unfolding s_def by (rule roundDouble_error)
    also have "\<dots> \<le> M / 2 ^ 53" using ds by (intro divide_right_mono) simp_all
    finally show ?thesis .
  qed
  have ms: "\<bar>s\<bar> \<le> 2 * M"
    using roundDouble_magnitude [of "a + hb"] ds by (simp add: s_def)
  \<comment> \<open>the division\<close>
  have ecx: "\<bar>cx * W - s\<bar> \<le> 2 * M / 2 ^ 53"
  proof -
    have "\<bar>cx - s / W\<bar> \<le> \<bar>s / W\<bar> / 2 ^ 53"
      unfolding cx_def by (rule roundDouble_error)
    then have e: "\<bar>cx - s / W\<bar> \<le> \<bar>s\<bar> / Wa / 2 ^ 53" by (simp add: Wa_def)
    have "cx * W - s = (cx - s / W) * W" using assms by (simp add: field_simps)
    then have "\<bar>cx * W - s\<bar> = \<bar>cx - s / W\<bar> * Wa" by (simp add: abs_mult Wa_def)
    also have "\<dots> \<le> (\<bar>s\<bar> / Wa / 2 ^ 53) * Wa"
      using e Wa by (intro mult_right_mono) simp_all
    also have "\<dots> = \<bar>s\<bar> / 2 ^ 53" using Wa by simp
    also have "\<dots> \<le> 2 * M / 2 ^ 53" using ms by (intro divide_right_mono) simp_all
    finally show ?thesis .
  qed
  have mcx: "\<bar>cx * W\<bar> \<le> 4 * M"
  proof -
    have "2 * M / 2 ^ 53 \<le> 2 * M" using M(1) small [of "2 * M"] by simp
    with ecx ms show ?thesis by linarith
  qed
  \<comment> \<open>the multiplication\<close>
  have ep: "\<bar>p - cx * W\<bar> \<le> 4 * M / 2 ^ 53"
  proof -
    have "\<bar>p - cx * W\<bar> \<le> \<bar>cx * W\<bar> / 2 ^ 53"
      unfolding p_def by (rule roundDouble_error)
    also have "\<dots> \<le> 4 * M / 2 ^ 53" using mcx by (intro divide_right_mono) simp_all
    finally show ?thesis .
  qed
  have mp: "\<bar>p\<bar> \<le> 8 * M"
    using roundDouble_magnitude [of "cx * W"] mcx by (simp add: p_def)
  \<comment> \<open>the reloaded size and its half\<close>
  have ew: "\<bar>w' - b\<bar> \<le> 3 * M / 2 ^ 53"
  proof -
    have "\<bar>w' - b\<bar> \<le> 3 * \<bar>b\<bar> / 2 ^ 53"
      unfolding w'_def by (rule size_back [OF assms])
    also have "\<dots> \<le> 3 * M / 2 ^ 53" using M by (intro divide_right_mono) simp_all
    finally show ?thesis .
  qed
  have mw: "\<bar>w'\<bar> \<le> 4 * M"
  proof -
    have "3 * M / 2 ^ 53 \<le> 3 * M" using M(1) small [of "3 * M"] by simp
    with ew M show ?thesis by linarith
  qed
  have ehw: "\<bar>hw - w' / 2\<bar> \<le> 2 * M / 2 ^ 53"
  proof -
    have "\<bar>hw - w' / 2\<bar> \<le> \<bar>w' / 2\<bar> / 2 ^ 53"
      unfolding hw_def by (rule roundDouble_error)
    also have "\<dots> \<le> 2 * M / 2 ^ 53" using mw by (intro divide_right_mono) simp_all
    finally show ?thesis .
  qed
  have mhw: "\<bar>hw\<bar> \<le> 4 * M"
    using roundDouble_magnitude [of "w' / 2"] mw by (simp add: hw_def)
  \<comment> \<open>the subtraction\<close>
  have ex: "\<bar>x' - (p - hw)\<bar> \<le> 12 * M / 2 ^ 53"
  proof -
    have "\<bar>x' - (p - hw)\<bar> \<le> \<bar>p - hw\<bar> / 2 ^ 53"
      unfolding x'_def by (rule roundDouble_error)
    also have "\<dots> \<le> 12 * M / 2 ^ 53"
    proof (rule divide_right_mono)
      show "\<bar>p - hw\<bar> \<le> 12 * M" using mp mhw by linarith
      show "(0::real) \<le> 2 ^ 53" by simp
    qed
    finally show ?thesis .
  qed
  have "x' - a = (x' - (p - hw)) + (p - cx * W) + (cx * W - s) + (s - (a + hb))
                 + (hb - b / 2) - (hw - w' / 2) - (w' - b) / 2"
    by (simp add: field_simps)
  then have "\<bar>x' - a\<bar> \<le> \<bar>x' - (p - hw)\<bar> + \<bar>p - cx * W\<bar> + \<bar>cx * W - s\<bar> + \<bar>s - (a + hb)\<bar>
                 + \<bar>hb - b / 2\<bar> + \<bar>hw - w' / 2\<bar> + \<bar>w' - b\<bar>"
    by linarith
  also have "\<dots> \<le> 12 * M / 2 ^ 53 + 4 * M / 2 ^ 53 + 2 * M / 2 ^ 53 + M / 2 ^ 53
                 + M / 2 ^ 53 + 2 * M / 2 ^ 53 + 3 * M / 2 ^ 53"
    using ex ep ecx es ehb ehw ew by linarith
  also have "\<dots> = 25 * M / 2 ^ 53" by (simp add: field_simps)
  finally show ?thesis
    by (simp add: x'_def p_def cx_def s_def hb_def hw_def w'_def M_def)
qed

text \<open>The far corner after a resize: the corner is rounded, and the new size is the rounded
  distance from the new edge to it.\<close>

lemma far_corner:
  "\<bar>(n + roundDouble (roundDouble c - n)) - c\<bar>
     \<le> 6 * (\<bar>n\<bar> + \<bar>roundDouble (roundDouble c - n)\<bar>) / 2 ^ 53"
proof -
  define B where "B = roundDouble c"
  define nw where "nw = roundDouble (B - n)"
  have d: "\<bar>B - n\<bar> \<le> 2 * \<bar>nw\<bar>" unfolding nw_def by (rule roundDouble_lower)
  have "\<bar>nw - (B - n)\<bar> \<le> \<bar>B - n\<bar> / 2 ^ 53" unfolding nw_def by (rule roundDouble_error)
  also have "\<dots> \<le> 2 * \<bar>nw\<bar> / 2 ^ 53" using d by (intro divide_right_mono) simp_all
  finally have e1: "\<bar>nw - (B - n)\<bar> \<le> 2 * \<bar>nw\<bar> / 2 ^ 53" .
  have "\<bar>c\<bar> \<le> 2 * \<bar>B\<bar>" unfolding B_def by (rule roundDouble_lower)
  moreover have "\<bar>B\<bar> \<le> \<bar>n\<bar> + 2 * \<bar>nw\<bar>" using d by linarith
  ultimately have c: "\<bar>c\<bar> \<le> 2 * \<bar>n\<bar> + 4 * \<bar>nw\<bar>" by linarith
  have "\<bar>B - c\<bar> \<le> \<bar>c\<bar> / 2 ^ 53" unfolding B_def by (rule roundDouble_error)
  also have "\<dots> \<le> (2 * \<bar>n\<bar> + 4 * \<bar>nw\<bar>) / 2 ^ 53"
    using c by (intro divide_right_mono) simp_all
  finally have e2: "\<bar>B - c\<bar> \<le> (2 * \<bar>n\<bar> + 4 * \<bar>nw\<bar>) / 2 ^ 53" .
  have "\<bar>(n + nw) - c\<bar> \<le> \<bar>nw - (B - n)\<bar> + \<bar>B - c\<bar>" by linarith
  also have "\<dots> \<le> 2 * \<bar>nw\<bar> / 2 ^ 53 + (2 * \<bar>n\<bar> + 4 * \<bar>nw\<bar>) / 2 ^ 53"
    using e1 e2 by linarith
  also have "\<dots> \<le> 6 * (\<bar>n\<bar> + \<bar>nw\<bar>) / 2 ^ 53" by (simp add: field_simps)
  finally show ?thesis by (simp add: nw_def B_def)
qed

lemma reload_fields:
  "rect_w (yoloToSvg_double (withGeometry a (svgToYolo_double x y w h W H)) W H)
     = roundDouble (roundDouble (w / W) * W)"
  "rect_h (yoloToSvg_double (withGeometry a (svgToYolo_double x y w h W H)) W H)
     = roundDouble (roundDouble (h / H) * H)"
  "rect_x (yoloToSvg_double (withGeometry a (svgToYolo_double x y w h W H)) W H)
     = roundDouble
         (roundDouble (roundDouble (roundDouble (x + roundDouble (w / 2)) / W) * W)
          - roundDouble (roundDouble (roundDouble (w / W) * W) / 2))"
  "rect_y (yoloToSvg_double (withGeometry a (svgToYolo_double x y w h W H)) W H)
     = roundDouble
         (roundDouble (roundDouble (roundDouble (y + roundDouble (h / 2)) / H) * H)
          - roundDouble (roundDouble (roundDouble (h / H) * H) / 2))"
  by (simp_all add: yoloToSvg_double_def svgToYolo_double_def withGeometry_def Let_def)

text \<open>The corner of the reloaded rectangle against the corner of the stored one.\<close>

lemma reload_corner:
  assumes "W \<noteq> 0" "H \<noteq> 0"
  shows "\<bar>fst (oppositeCorner hdl
              (yoloToSvg_double (withGeometry a
                 (svgToYolo_double (rect_x r) (rect_y r) (rect_w r) (rect_h r) W H)) W H))
          - fst (oppositeCorner hdl r)\<bar> \<le> 28 * (\<bar>rect_x r\<bar> + \<bar>rect_w r\<bar>) / 2 ^ 53"
    and "\<bar>snd (oppositeCorner hdl
              (yoloToSvg_double (withGeometry a
                 (svgToYolo_double (rect_x r) (rect_y r) (rect_w r) (rect_h r) W H)) W H))
          - snd (oppositeCorner hdl r)\<bar> \<le> 28 * (\<bar>rect_y r\<bar> + \<bar>rect_h r\<bar>) / 2 ^ 53"
proof -
  define n where
    "n = yoloToSvg_double (withGeometry a
           (svgToYolo_double (rect_x r) (rect_y r) (rect_w r) (rect_h r) W H)) W H"
  have x: "\<bar>rect_x n - rect_x r\<bar> \<le> 25 * (\<bar>rect_x r\<bar> + \<bar>rect_w r\<bar>) / 2 ^ 53"
    unfolding n_def reload_fields by (rule edge_back [OF assms(1)])
  have y: "\<bar>rect_y n - rect_y r\<bar> \<le> 25 * (\<bar>rect_y r\<bar> + \<bar>rect_h r\<bar>) / 2 ^ 53"
    unfolding n_def reload_fields by (rule edge_back [OF assms(2)])
  have w: "\<bar>rect_w n - rect_w r\<bar> \<le> 3 * \<bar>rect_w r\<bar> / 2 ^ 53"
    unfolding n_def reload_fields by (rule size_back [OF assms(1)])
  have h: "\<bar>rect_h n - rect_h r\<bar> \<le> 3 * \<bar>rect_h r\<bar> / 2 ^ 53"
    unfolding n_def reload_fields by (rule size_back [OF assms(2)])
  have xn: "\<bar>rect_x n - rect_x r\<bar> \<le> 28 * (\<bar>rect_x r\<bar> + \<bar>rect_w r\<bar>) / 2 ^ 53"
    using x by (simp add: field_simps)
  have yn: "\<bar>rect_y n - rect_y r\<bar> \<le> 28 * (\<bar>rect_y r\<bar> + \<bar>rect_h r\<bar>) / 2 ^ 53"
    using y by (simp add: field_simps)
  have xf: "\<bar>(rect_x n + rect_w n) - (rect_x r + rect_w r)\<bar>
              \<le> 28 * (\<bar>rect_x r\<bar> + \<bar>rect_w r\<bar>) / 2 ^ 53"
  proof -
    have "\<bar>(rect_x n + rect_w n) - (rect_x r + rect_w r)\<bar>
            \<le> \<bar>rect_x n - rect_x r\<bar> + \<bar>rect_w n - rect_w r\<bar>" by linarith
    also have "\<dots> \<le> 25 * (\<bar>rect_x r\<bar> + \<bar>rect_w r\<bar>) / 2 ^ 53 + 3 * \<bar>rect_w r\<bar> / 2 ^ 53"
      using x w by linarith
    also have "\<dots> \<le> 28 * (\<bar>rect_x r\<bar> + \<bar>rect_w r\<bar>) / 2 ^ 53" by (simp add: field_simps)
    finally show ?thesis .
  qed
  have yf: "\<bar>(rect_y n + rect_h n) - (rect_y r + rect_h r)\<bar>
              \<le> 28 * (\<bar>rect_y r\<bar> + \<bar>rect_h r\<bar>) / 2 ^ 53"
  proof -
    have "\<bar>(rect_y n + rect_h n) - (rect_y r + rect_h r)\<bar>
            \<le> \<bar>rect_y n - rect_y r\<bar> + \<bar>rect_h n - rect_h r\<bar>" by linarith
    also have "\<dots> \<le> 25 * (\<bar>rect_y r\<bar> + \<bar>rect_h r\<bar>) / 2 ^ 53 + 3 * \<bar>rect_h r\<bar> / 2 ^ 53"
      using y h by linarith
    also have "\<dots> \<le> 28 * (\<bar>rect_y r\<bar> + \<bar>rect_h r\<bar>) / 2 ^ 53" by (simp add: field_simps)
    finally show ?thesis .
  qed
  show "\<bar>fst (oppositeCorner hdl n) - fst (oppositeCorner hdl r)\<bar>
          \<le> 28 * (\<bar>rect_x r\<bar> + \<bar>rect_w r\<bar>) / 2 ^ 53"
    using xn xf by (cases hdl) (simp_all add: oppositeCorner_def)
  show "\<bar>snd (oppositeCorner hdl n) - snd (oppositeCorner hdl r)\<bar>
          \<le> 28 * (\<bar>rect_y r\<bar> + \<bar>rect_h r\<bar>) / 2 ^ 53"
    using yn yf by (cases hdl) (simp_all add: oppositeCorner_def)
qed

text \<open>The corner of the recomputed rectangle against the corner before.\<close>

lemma resize_corner:
  "\<bar>fst (oppositeCorner hdl (resizeRect_double hdl old x y)) - fst (oppositeCorner hdl old)\<bar>
     \<le> 6 * (\<bar>rect_x (resizeRect_double hdl old x y)\<bar>
            + \<bar>rect_w (resizeRect_double hdl old x y)\<bar>) / 2 ^ 53"
  "\<bar>snd (oppositeCorner hdl (resizeRect_double hdl old x y)) - snd (oppositeCorner hdl old)\<bar>
     \<le> 6 * (\<bar>rect_y (resizeRect_double hdl old x y)\<bar>
            + \<bar>rect_h (resizeRect_double hdl old x y)\<bar>) / 2 ^ 53"
proof -
  have fx: "\<bar>(n + roundDouble (roundDouble (rect_x old + rect_w old) - n))
              - (rect_x old + rect_w old)\<bar>
              \<le> 6 * (\<bar>n\<bar> + \<bar>roundDouble (roundDouble (rect_x old + rect_w old) - n)\<bar>) / 2 ^ 53"
    for n by (rule far_corner)
  have fy: "\<bar>(n + roundDouble (roundDouble (rect_y old + rect_h old) - n))
              - (rect_y old + rect_h old)\<bar>
              \<le> 6 * (\<bar>n\<bar> + \<bar>roundDouble (roundDouble (rect_y old + rect_h old) - n)\<bar>) / 2 ^ 53"
    for n by (rule far_corner)
  show "\<bar>fst (oppositeCorner hdl (resizeRect_double hdl old x y)) - fst (oppositeCorner hdl old)\<bar>
     \<le> 6 * (\<bar>rect_x (resizeRect_double hdl old x y)\<bar>
            + \<bar>rect_w (resizeRect_double hdl old x y)\<bar>) / 2 ^ 53"
    using fx by (cases hdl) (simp_all add: oppositeCorner_def resizeRect_double_def Let_def)
  show "\<bar>snd (oppositeCorner hdl (resizeRect_double hdl old x y)) - snd (oppositeCorner hdl old)\<bar>
     \<le> 6 * (\<bar>rect_y (resizeRect_double hdl old x y)\<bar>
            + \<bar>rect_h (resizeRect_double hdl old x y)\<bar>) / 2 ^ 53"
    using fy by (cases hdl) (simp_all add: oppositeCorner_def resizeRect_double_def Let_def)
qed

lemma resize_double:
  assumes "cs_mode st = SELECT"
      and "resizeHandle st = Some hdl"
      and "selectedAnnotationId st = Some sid" and "sid \<noteq> []"
      and "find (\<lambda>a. ann_id a = sid) (annotations (cs_image st)) = Some ann"
      and "width (cs_image st) > 0" and "height (cs_image st) > 0"
  shows "\<exists>anns' ann' r.
           handleMouseMove_double st e = [OnUpdateAnnotations anns']
         \<and> find (\<lambda>a. ann_id a = sid) anns' = Some ann'
         \<and> r = resizeRect_double hdl
                 (yoloToSvg_double ann (width (cs_image st)) (height (cs_image st)))
                 (fst (getMousePos_double st e)) (snd (getMousePos_double st e))
         \<and> \<bar>fst (oppositeCorner hdl
                   (yoloToSvg_double ann' (width (cs_image st)) (height (cs_image st))))
              - fst (oppositeCorner hdl
                   (yoloToSvg_double ann (width (cs_image st)) (height (cs_image st))))\<bar>
             \<le> (\<bar>rect_x r\<bar> + \<bar>rect_w r\<bar>) / 10 ^ 9
         \<and> \<bar>snd (oppositeCorner hdl
                   (yoloToSvg_double ann' (width (cs_image st)) (height (cs_image st))))
              - snd (oppositeCorner hdl
                   (yoloToSvg_double ann (width (cs_image st)) (height (cs_image st))))\<bar>
             \<le> (\<bar>rect_y r\<bar> + \<bar>rect_h r\<bar>) / 10 ^ 9"
proof -
  define W H where "W = width (cs_image st)" and "H = height (cs_image st)"
  define old where "old = yoloToSvg_double ann W H"
  define r where
    "r = resizeRect_double hdl old (fst (getMousePos_double st e)) (snd (getMousePos_double st e))"
  define g where "g = svgToYolo_double (rect_x r) (rect_y r) (rect_w r) (rect_h r) W H"
  define anns' where
    "anns' = map (\<lambda>a. if ann_id a = ann_id ann then withGeometry a g else a)
               (annotations (cs_image st))"
  define new where "new = yoloToSvg_double (withGeometry ann g) W H"
  have nz: "W \<noteq> 0" "H \<noteq> 0" using assms(6,7) by (simp_all add: W_def H_def)
  have move: "handleMouseMove_double st e = [OnUpdateAnnotations anns']"
    using assms(1-5)
    by (simp add: handleMouseMove_double_def truthy_def Let_def split_beta anns'_def g_def r_def
          old_def W_def H_def)
  have found: "find (\<lambda>a. ann_id a = sid) anns' = Some (withGeometry ann g)"
    unfolding anns'_def by (rule find_map_update [OF assms(5)])
  have small: "34 * t / 2 ^ 53 \<le> t / 10 ^ 9" if "0 \<le> t" for t :: real
    using that by (simp add: field_simps)
  have cx: "\<bar>fst (oppositeCorner hdl new) - fst (oppositeCorner hdl old)\<bar>
              \<le> (\<bar>rect_x r\<bar> + \<bar>rect_w r\<bar>) / 10 ^ 9"
  proof -
    have "\<bar>fst (oppositeCorner hdl new) - fst (oppositeCorner hdl old)\<bar>
            \<le> \<bar>fst (oppositeCorner hdl new) - fst (oppositeCorner hdl r)\<bar>
              + \<bar>fst (oppositeCorner hdl r) - fst (oppositeCorner hdl old)\<bar>" by linarith
    also have "\<dots> \<le> 28 * (\<bar>rect_x r\<bar> + \<bar>rect_w r\<bar>) / 2 ^ 53
                     + 6 * (\<bar>rect_x r\<bar> + \<bar>rect_w r\<bar>) / 2 ^ 53"
      using reload_corner(1) [OF nz, of hdl ann r] resize_corner(1) [of hdl old]
      unfolding new_def g_def r_def by (intro add_mono) simp_all
    also have "\<dots> = 34 * (\<bar>rect_x r\<bar> + \<bar>rect_w r\<bar>) / 2 ^ 53" by (simp add: field_simps)
    also have "\<dots> \<le> (\<bar>rect_x r\<bar> + \<bar>rect_w r\<bar>) / 10 ^ 9" by (rule small) simp
    finally show ?thesis .
  qed
  have cy: "\<bar>snd (oppositeCorner hdl new) - snd (oppositeCorner hdl old)\<bar>
              \<le> (\<bar>rect_y r\<bar> + \<bar>rect_h r\<bar>) / 10 ^ 9"
  proof -
    have "\<bar>snd (oppositeCorner hdl new) - snd (oppositeCorner hdl old)\<bar>
            \<le> \<bar>snd (oppositeCorner hdl new) - snd (oppositeCorner hdl r)\<bar>
              + \<bar>snd (oppositeCorner hdl r) - snd (oppositeCorner hdl old)\<bar>" by linarith
    also have "\<dots> \<le> 28 * (\<bar>rect_y r\<bar> + \<bar>rect_h r\<bar>) / 2 ^ 53
                     + 6 * (\<bar>rect_y r\<bar> + \<bar>rect_h r\<bar>) / 2 ^ 53"
      using reload_corner(2) [OF nz, of hdl ann r] resize_corner(2) [of hdl old]
      unfolding new_def g_def r_def by (intro add_mono) simp_all
    also have "\<dots> = 34 * (\<bar>rect_y r\<bar> + \<bar>rect_h r\<bar>) / 2 ^ 53" by (simp add: field_simps)
    also have "\<dots> \<le> (\<bar>rect_y r\<bar> + \<bar>rect_h r\<bar>) / 10 ^ 9" by (rule small) simp
    finally show ?thesis .
  qed
  show ?thesis
    using move found cx cy
    unfolding new_def r_def old_def W_def H_def
    by (intro exI [of _ anns'] exI [of _ "withGeometry ann g"]
          exI [of _ "resizeRect_double hdl
                 (yoloToSvg_double ann (width (cs_image st)) (height (cs_image st)))
                 (fst (getMousePos_double st e)) (snd (getMousePos_double st e))"]) simp
qed

lemma resizeExample_before:
  "yoloToSvg_double (exampleAnnotation ''a1'' ''0'') 640 480
     = \<lparr>rect_x = 240, rect_y = 180, rect_w = 160, rect_h = 120\<rparr>"
  by (simp add: yoloToSvg_double_def exampleAnnotation_def Let_def roundDouble_resize_values)

lemma resizeExample_pointer: "getMousePos_double (exampleCanvas handle_br) resizeEvent = (400, 301)"
  by (simp add: getMousePos_double_def exampleCanvas_def resizeEvent_def
        roundDouble_resize_values)

lemma resizeExample_resized:
  "resizeRect_double handle_br \<lparr>rect_x = 240, rect_y = 180, rect_w = 160, rect_h = 120\<rparr> 400 301
     = \<lparr>rect_x = 240, rect_y = 180, rect_w = 160, rect_h = 121\<rparr>"
  by (simp add: resizeRect_double_def Let_def roundDouble_resize_values)

lemma resizeExample_stored:
  "svgToYolo_double 240 180 160 121 640 480
     = \<lparr>yolo_x = 1 / 2, yolo_y = 4512982126594185 / 9007199254740992, yolo_w = 1 / 4,
        yolo_h = 2270564812132625 / 9007199254740992\<rparr>"
  by (simp add: svgToYolo_double_def Let_def roundDouble_resize_values roundDouble_values)

lemma resizeExample_after:
  "yoloToSvg_double resizedExample 640 480
     = \<lparr>rect_x = 240, rect_y = 180 + 1 / 2 ^ 45, rect_w = 160, rect_h = 121\<rparr>"
  by (simp add: yoloToSvg_double_def resizedExample_def Let_def roundDouble_resize_values)

text \<open>
  Claim C3 says that every pointer-move update of a resize leaves the pixel coordinates of
  the opposite corner unchanged. The source computes in binary64. On a 640 by 480 image,
  resizing the box \<open>(0.5, 0.5, 0.25, 0.25)\<close> by the bottom-right handle with the pointer at
  \<open>(400, 301)\<close> stores \<open>y = 240.5 / 480\<close> and \<open>h = 121 / 480\<close> rounded, and the rectangle
  read back has its top-left corner at \<open>(240, 180 + 2^-45)\<close> instead of \<open>(240, 180)\<close>.
\<close>

theorem resize_double_counterexample:
  "cs_mode (exampleCanvas handle_br) = SELECT
   \<and> resizeHandle (exampleCanvas handle_br) = Some handle_br
   \<and> selectedAnnotationId (exampleCanvas handle_br) = Some ''a1''
   \<and> annotations (cs_image (exampleCanvas handle_br)) = [exampleAnnotation ''a1'' ''0'']
   \<and> handleMouseMove_double (exampleCanvas handle_br) resizeEvent
       = [OnUpdateAnnotations [resizedExample]]
   \<and> oppositeCorner handle_br (yoloToSvg_double (exampleAnnotation ''a1'' ''0'') 640 480)
       = (240, 180)
   \<and> oppositeCorner handle_br (yoloToSvg_double resizedExample 640 480)
       = (240, 180 + 1 / 2 ^ 45)
   \<and> oppositeCorner handle_br (yoloToSvg_double resizedExample 640 480)
       \<noteq> oppositeCorner handle_br (yoloToSvg_double (exampleAnnotation ''a1'' ''0'') 640 480)"
proof -
  have st: "cs_mode (exampleCanvas handle_br) = SELECT"
    "resizeHandle (exampleCanvas handle_br) = Some handle_br"
    "selectedAnnotationId (exampleCanvas handle_br) = Some ''a1''"
    "annotations (cs_image (exampleCanvas handle_br)) = [exampleAnnotation ''a1'' ''0'']"
    "width (cs_image (exampleCanvas handle_br)) = 640"
    "height (cs_image (exampleCanvas handle_br)) = 480"
    by (simp_all add: exampleCanvas_def exampleImage_def)
  have upd: "withGeometry (exampleAnnotation ''a1'' ''0'')
               \<lparr>yolo_x = 1 / 2, yolo_y = 4512982126594185 / 9007199254740992, yolo_w = 1 / 4,
                yolo_h = 2270564812132625 / 9007199254740992\<rparr> = resizedExample"
    by (simp add: withGeometry_def exampleAnnotation_def resizedExample_def)
  have id: "ann_id (exampleAnnotation ''a1'' ''0'') = ''a1''"
    by (simp add: exampleAnnotation_def)
  have move: "handleMouseMove_double (exampleCanvas handle_br) resizeEvent
       = [OnUpdateAnnotations [resizedExample]]"
    by (simp add: handleMouseMove_double_def st truthy_def resizeExample_pointer id resizeExample_before resizeExample_resized
          resizeExample_stored upd Let_def)
  show ?thesis
    using move st(1-4) by (simp add: resizeExample_before resizeExample_after oppositeCorner_def)
qed

text \<open>
  Claim C3, amended. While an annotation is being resized on an image of known size, by any
  of the four handles: in exact arithmetic a pointer-move update leaves the pixel coordinates
  of the corner opposite the active handle unchanged, the rectangle of the updated annotation
  being the recomputed rectangle. In binary64 arithmetic (values in the normal range) the
  corner of the updated annotation's rectangle lies within \<open>1e-9 * (|x'| + |w'|)\<close>
  horizontally and \<open>1e-9 * (|y'| + |h'|)\<close> vertically of the corner before the update, where
  \<open>(x', y', w', h')\<close> is the recomputed rectangle.
\<close>

theorem resize_anchor_law:
  assumes "cs_mode st = SELECT"
      and "resizeHandle st = Some hdl"
      and "selectedAnnotationId st = Some sid" and "sid \<noteq> []"
      and "find (\<lambda>a. ann_id a = sid) (annotations (cs_image st)) = Some ann"
      and "width (cs_image st) > 0" and "height (cs_image st) > 0"
  shows "(\<exists>anns' ann'.
            handleMouseMove st e = [OnUpdateAnnotations anns']
          \<and> find (\<lambda>a. ann_id a = sid) anns' = Some ann'
          \<and> yoloToSvg ann' (width (cs_image st)) (height (cs_image st))
              = resizeRect hdl (yoloToSvg ann (width (cs_image st)) (height (cs_image st)))
                  (fst (getMousePos st e)) (snd (getMousePos st e))
          \<and> oppositeCorner hdl (yoloToSvg ann' (width (cs_image st)) (height (cs_image st)))
              = oppositeCorner hdl (yoloToSvg ann (width (cs_image st)) (height (cs_image st))))
       \<and> (\<exists>anns' ann' r.
            handleMouseMove_double st e = [OnUpdateAnnotations anns']
          \<and> find (\<lambda>a. ann_id a = sid) anns' = Some ann'
          \<and> r = resizeRect_double hdl
                  (yoloToSvg_double ann (width (cs_image st)) (height (cs_image st)))
                  (fst (getMousePos_double st e)) (snd (getMousePos_double st e))
          \<and> \<bar>fst (oppositeCorner hdl
                    (yoloToSvg_double ann' (width (cs_image st)) (height (cs_image st))))
               - fst (oppositeCorner hdl
                    (yoloToSvg_double ann (width (cs_image st)) (height (cs_image st))))\<bar>
              \<le> (\<bar>rect_x r\<bar> + \<bar>rect_w r\<bar>) / 10 ^ 9
          \<and> \<bar>snd (oppositeCorner hdl
                    (yoloToSvg_double ann' (width (cs_image st)) (height (cs_image st))))
               - snd (oppositeCorner hdl
                    (yoloToSvg_double ann (width (cs_image st)) (height (cs_image st))))\<bar>
              \<le> (\<bar>rect_y r\<bar> + \<bar>rect_h r\<bar>) / 10 ^ 9)"
  using resize_exact [OF assms, of e] resize_double [OF assms, of e]
  by (rule conjI)

text \<open>Claim C3, amended, at the top-left handle, the pointer at \<open>(100, 50)\<close>.\<close>

theorem resize_anchor_law_witness:
  "cs_mode (exampleCanvas handle_tl) = SELECT
   \<and> resizeHandle (exampleCanvas handle_tl) = Some handle_tl
   \<and> selectedAnnotationId (exampleCanvas handle_tl) = Some ''a1'' \<and> ''a1'' \<noteq> []
   \<and> find (\<lambda>a. ann_id a = ''a1'') (annotations (cs_image (exampleCanvas handle_tl)))
       = Some (exampleAnnotation ''a1'' ''0'')
   \<and> width (cs_image (exampleCanvas handle_tl)) > 0
   \<and> height (cs_image (exampleCanvas handle_tl)) > 0
   \<and> (\<exists>anns' ann'.
         handleMouseMove (exampleCanvas handle_tl) exampleEvent = [OnUpdateAnnotations anns']
       \<and> find (\<lambda>a. ann_id a = ''a1'') anns' = Some ann'
       \<and> yoloToSvg ann' 640 480 = \<lparr>rect_x = 100, rect_y = 50, rect_w = 300, rect_h = 250\<rparr>
       \<and> oppositeCorner handle_tl (yoloToSvg ann' 640 480) = (400, 300)
       \<and> oppositeCorner handle_tl (yoloToSvg (exampleAnnotation ''a1'' ''0'') 640 480)
           = (400, 300))
   \<and> (\<exists>anns' ann' r.
         handleMouseMove_double (exampleCanvas handle_tl) exampleEvent
           = [OnUpdateAnnotations anns']
       \<and> find (\<lambda>a. ann_id a = ''a1'') anns' = Some ann'
       \<and> r = resizeRect_double handle_tl
               (yoloToSvg_double (exampleAnnotation ''a1'' ''0'') 640 480)
               (fst (getMousePos_double (exampleCanvas handle_tl) exampleEvent))
               (snd (getMousePos_double (exampleCanvas handle_tl) exampleEvent))
       \<and> \<bar>fst (oppositeCorner handle_tl (yoloToSvg_double ann' 640 480))
            - fst (oppositeCorner handle_tl
                     (yoloToSvg_double (exampleAnnotation ''a1'' ''0'') 640 480))\<bar>
           \<le> (\<bar>rect_x r\<bar> + \<bar>rect_w r\<bar>) / 10 ^ 9
       \<and> \<bar>snd (oppositeCorner handle_tl (yoloToSvg_double ann' 640 480))
            - snd (oppositeCorner handle_tl
                     (yoloToSvg_double (exampleAnnotation ''a1'' ''0'') 640 480))\<bar>
           \<le> (\<bar>rect_y r\<bar> + \<bar>rect_h r\<bar>) / 10 ^ 9)"
proof -
  have h: "cs_mode (exampleCanvas handle_tl) = SELECT"
    "resizeHandle (exampleCanvas handle_tl) = Some handle_tl"
    "selectedAnnotationId (exampleCanvas handle_tl) = Some ''a1''" "''a1'' \<noteq> []"
    "find (\<lambda>a. ann_id a = ''a1'') (annotations (cs_image (exampleCanvas handle_tl)))
       = Some (exampleAnnotation ''a1'' ''0'')"
    "width (cs_image (exampleCanvas handle_tl)) > 0"
    "height (cs_image (exampleCanvas handle_tl)) > 0"
    by (simp_all add: exampleCanvas_def exampleImage_def exampleAnnotation_def)
  have w: "width (cs_image (exampleCanvas handle_tl)) = 640"
    "height (cs_image (exampleCanvas handle_tl)) = 480"
    by (simp_all add: exampleCanvas_def exampleImage_def)
  have r: "resizeRect handle_tl (yoloToSvg (exampleAnnotation ''a1'' ''0'') 640 480)
             (fst (getMousePos (exampleCanvas handle_tl) exampleEvent))
             (snd (getMousePos (exampleCanvas handle_tl) exampleEvent))
           = \<lparr>rect_x = 100, rect_y = 50, rect_w = 300, rect_h = 250\<rparr>"
    by (simp add: resizeRect_def yoloToSvg_def exampleAnnotation_def getMousePos_def
          exampleCanvas_def exampleEvent_def Let_def)
  have c: "oppositeCorner handle_tl (yoloToSvg (exampleAnnotation ''a1'' ''0'') 640 480)
             = (400, 300)"
    by (simp add: oppositeCorner_def yoloToSvg_def exampleAnnotation_def Let_def)
  note law = resize_anchor_law [OF h, of exampleEvent, unfolded w r c]
  from law have e: "\<exists>anns' ann'.
         handleMouseMove (exampleCanvas handle_tl) exampleEvent = [OnUpdateAnnotations anns']
       \<and> find (\<lambda>a. ann_id a = ''a1'') anns' = Some ann'
       \<and> yoloToSvg ann' 640 480 = \<lparr>rect_x = 100, rect_y = 50, rect_w = 300, rect_h = 250\<rparr>
       \<and> oppositeCorner handle_tl (yoloToSvg ann' 640 480) = (400, 300)
       \<and> oppositeCorner handle_tl (yoloToSvg (exampleAnnotation ''a1'' ''0'') 640 480)
           = (400, 300)"
    using c by auto
  from law have d: "\<exists>anns' ann' r.
         handleMouseMove_double (exampleCanvas handle_tl) exampleEvent
           = [OnUpdateAnnotations anns']
       \<and> find (\<lambda>a. ann_id a = ''a1'') anns' = Some ann'
       \<and> r = resizeRect_double handle_tl
               (yoloToSvg_double (exampleAnnotation ''a1'' ''0'') 640 480)
               (fst (getMousePos_double (exampleCanvas handle_tl) exampleEvent))
               (snd (getMousePos_double (exampleCanvas handle_tl) exampleEvent))
       \<and> \<bar>fst (oppositeCorner handle_tl (yoloToSvg_double ann' 640 480))
            - fst (oppositeCorner handle_tl
                     (yoloToSvg_double (exampleAnnotation ''a1'' ''0'') 640 480))\<bar>
           \<le> (\<bar>rect_x r\<bar> + \<bar>rect_w r\<bar>) / 10 ^ 9
       \<and> \<bar>snd (oppositeCorner handle_tl (yoloToSvg_double ann' 640 480))
            - snd (oppositeCorner handle_tl
                     (yoloToSvg_double (exampleAnnotation ''a1'' ''0'') 640 480))\<bar>
           \<le> (\<bar>rect_y r\<bar> + \<bar>rect_h r\<bar>) / 10 ^ 9"
    by (rule conjunct2)
  show ?thesis
    using h e d by (intro conjI)
qed

end
